theory Spec2Isabelle
  imports Complex_Main "HOL-Library.Option_ord" "HOL-Library.Log_Nat"
begin

section \<open>HotFlip: a word-level gradient-guided attack (allennlp/interpret/attackers/hotflip.py)\<close>

text \<open>
  The development follows the class \<open>Hotflip\<close>: its constructor, the lazy construction
  of the embedding matrix, the candidate selector \<open>_first_order_taylor\<close> and the two
  attack loops \<open>attack_from_json\<close> and \<open>targeted_attack_from_json\<close>.

  Conventions of the embedding.
  \<^item> The entries of gradients and embeddings are the numbers they hold, as rationals
    (every finite floating-point number is one). What the source computes from them in
    floating point (the squared norms, the scores of the selector) is not computed
    exactly here: the operations are parameters of the model, see \<open>float_ops\<close>, so that
    rounding, overflow to an infinity and NaN are all among the cases the theorems cover.
  \<^item> A \<open>Token\<close> is its \<open>text\<close>, the only attribute the attack reads or writes.
  \<^item> The vocabulary of the attack namespace is the list of its surface tokens, the
    token of id \<open>i\<close> at position \<open>i\<close> (ids are dense, \<open>0..N-1\<close>).
  \<^item> Every \<open>raise\<close> and every failing index, key or name lookup of the source is
    a result \<open>Inl e\<close>. The external collaborators (the model, the predictor) are
    functions that may fail as well.
\<close>

subsection \<open>Errors and basic operations\<close>

datatype error =
    ValueError string
  | IndexError
  | KeyError
  | NameError
  | AttributeError
  | RuntimeError
  | ConfigurationError
  | ExternalError string

type_synonym vec = "rat list"
type_synonym matrix = "rat list list"

text \<open>\<open>g.dot(h)\<close> on vectors of one length.\<close>

definition dot :: "vec \<Rightarrow> vec \<Rightarrow> rat" where
  "dot u v = sum_list (map2 (*) u v)"

text \<open>
  \<open>numpy.argmax\<close>: the index of the first maximum, scanning left to right and moving
  only to a strictly larger entry; a \<open>ValueError\<close> on an empty sequence.
\<close>

fun argmax_from :: "'a::linorder \<Rightarrow> nat \<Rightarrow> nat \<Rightarrow> 'a list \<Rightarrow> nat" where
  "argmax_from best best_i i [] = best_i"
| "argmax_from best best_i i (x # xs) =
     (if best < x then argmax_from x i (Suc i) xs
      else argmax_from best best_i (Suc i) xs)"

definition argmax :: "'a::linorder list \<Rightarrow> error + nat" where
  "argmax xs =
     (case xs of
        [] \<Rightarrow> Inl (ValueError ''attempt to get argmax of an empty sequence'')
      | x # rest \<Rightarrow> Inr (argmax_from x 0 1 rest))"

text \<open>
  \<open>for index in indices: xs[index] = v\<close> on a Python list: the assignments in order,
  an \<open>IndexError\<close> at the first index past the end. (Indices are positions, hence
  naturals; Python's wrap-around of negative indices does not arise.)
\<close>

fun set_each :: "'a \<Rightarrow> nat list \<Rightarrow> 'a list \<Rightarrow> error + 'a list" where
  "set_each v [] xs = Inr xs"
| "set_each v (i # is) xs =
     (if i < length xs then set_each v is (xs[i := v]) else Inl IndexError)"

text \<open>\<open>xs[i]\<close> on a Python list or an id-to-token table.\<close>

definition item :: "'a list \<Rightarrow> nat \<Rightarrow> error + 'a" where
  "item xs i = (if i < length xs then Inr (xs ! i) else Inl IndexError)"

subsection \<open>Floating-point arithmetic\<close>

text \<open>
  The arithmetic of the tensor libraries, as far as the attack uses it. \<open>'f\<close> is the
  type of the computed values, finite or not, with the order in which \<open>argmax\<close>
  compares them (numpy puts NaN above every number).
  \<^item> \<open>f_sqnorm g\<close> is \<open>g.dot(g)\<close>, and \<open>f_minus_one\<close> the \<open>-1\<close> that marks a masked
    position;
  \<^item> \<open>f_einsum_bik g E k\<close> is entry \<open>k\<close> of \<open>torch.einsum("bij,kj->bik", (grad,
    embedding_matrix))\<close>, the contraction of the gradient with row \<open>k\<close> of the matrix
    (how the library orders the additions may depend on the whole matrix and on \<open>k\<close>);
  \<^item> \<open>f_einsum_bi g e\<close> is \<open>torch.einsum("bij,bij->bi", (grad, word_embeds))\<close>;
  \<^item> \<open>f_sub\<close> and \<open>f_mul\<close> are the subtraction and the product with \<open>sign\<close> in
    \<open>sign * (prev_embed_dot_grad - new_embed_dot_grad)\<close>;
  \<^item> \<open>f_neg_inf\<close> is \<open>-numpy.inf\<close>.
  Nothing is assumed about them: a computed score may be rounded, and it may be equal to
  \<open>f_neg_inf\<close>.
\<close>

record 'f float_ops =
  f_sqnorm :: "vec \<Rightarrow> 'f"
  f_minus_one :: 'f
  f_einsum_bik :: "vec \<Rightarrow> matrix \<Rightarrow> nat \<Rightarrow> 'f"
  f_einsum_bi :: "vec \<Rightarrow> vec \<Rightarrow> 'f"
  f_sub :: "'f \<Rightarrow> 'f \<Rightarrow> 'f"
  f_mul :: "rat \<Rightarrow> 'f \<Rightarrow> 'f"
  f_neg_inf :: 'f

text \<open>
  Exact arithmetic, for the comparison with the spec's formula: the values are
  rationals, with \<open>None\<close> for minus infinity (the order of \<open>Option_ord\<close> puts it below
  every \<open>Some x\<close>).
\<close>

definition exact_arith :: "rat option float_ops" where
  "exact_arith =
     \<lparr> f_sqnorm = (\<lambda>g. Some (dot g g)),
       f_minus_one = Some (- 1),
       f_einsum_bik = (\<lambda>g E k. Some (dot g (E ! k))),
       f_einsum_bi = (\<lambda>u v. Some (dot u v)),
       f_sub = (\<lambda>a b. case a of None \<Rightarrow> None
                       | Some x \<Rightarrow> (case b of None \<Rightarrow> None | Some y \<Rightarrow> Some (x - y))),
       f_mul = (\<lambda>s a. map_option ((*) s) a),
       f_neg_inf = None \<rparr>"

text \<open>
  Single precision (IEEE 754 binary32), the precision of the tensors of the model: the
  values are the two infinities, NaN and the finite numbers, compared as \<open>argmax\<close>
  compares them. (The two zeros are one value here: they compare equal everywhere in
  the attack.)
\<close>

datatype float32 = NegInf | F32 rat | PosInf | NaN

fun class32 :: "float32 \<Rightarrow> nat" where
  "class32 NegInf = 0"
| "class32 (F32 x) = 1"
| "class32 PosInf = 2"
| "class32 NaN = 3"

fun value32 :: "float32 \<Rightarrow> rat" where
  "value32 (F32 x) = x"
| "value32 a = 0"

instantiation float32 :: linorder
begin

definition less_eq_float32 :: "float32 \<Rightarrow> float32 \<Rightarrow> bool" where
  "less_eq_float32 a b \<longleftrightarrow>
     class32 a < class32 b \<or> (class32 a = class32 b \<and> value32 a \<le> value32 b)"

definition less_float32 :: "float32 \<Rightarrow> float32 \<Rightarrow> bool" where
  "less_float32 a b \<longleftrightarrow>
     class32 a < class32 b \<or> (class32 a = class32 b \<and> value32 a < value32 b)"

instance
proof
  fix a b c :: float32
  show "a < b \<longleftrightarrow> a \<le> b \<and> \<not> b \<le> a"
    by (auto simp: less_eq_float32_def less_float32_def)
  show "a \<le> a" by (simp add: less_eq_float32_def)
  show "a \<le> b \<Longrightarrow> b \<le> c \<Longrightarrow> a \<le> c"
    by (auto simp: less_eq_float32_def)
  show "a \<le> b \<Longrightarrow> b \<le> a \<Longrightarrow> a = b"
    by (cases a; cases b) (auto simp: less_eq_float32_def)
  show "a \<le> b \<or> b \<le> a"
    by (auto simp: less_eq_float32_def)
qed

end

text \<open>
  Rounding to the nearest representable number, ties to the even significand: 24
  significant bits, the least exponent \<open>-126\<close> (below it the spacing stays \<open>2^-149\<close>),
  and an infinity from \<open>2^128\<close> on. \<open>exponent a\<close> is \<open>floor (log2 a)\<close> for \<open>a > 0\<close>.
\<close>

definition pow2 :: "int \<Rightarrow> rat" where
  "pow2 k = (if 0 \<le> k then 2 ^ nat k else 1 / 2 ^ nat (- k))"

definition exponent :: "rat \<Rightarrow> int" where
  "exponent a = (if 1 \<le> a then bitlen \<lfloor>a\<rfloor> - 1 else - bitlen (\<lceil>1 / a\<rceil> - 1))"

definition round_half_even :: "rat \<Rightarrow> int" where
  "round_half_even x =
     (let f = \<lfloor>x\<rfloor>; d = x - of_int f
      in if d < 1 / 2 then f else if 1 / 2 < d then f + 1 else if even f then f else f + 1)"

definition round32 :: "rat \<Rightarrow> float32" where
  "round32 x =
     (if x = 0 then F32 0
      else let q = pow2 (max (exponent \<bar>x\<bar>) (- 126) - 23);
               r = of_int (round_half_even (x / q)) * q
           in if pow2 128 \<le> \<bar>r\<bar> then (if x < 0 then NegInf else PosInf) else F32 r)"

fun neg32 :: "float32 \<Rightarrow> float32" where
  "neg32 NegInf = PosInf"
| "neg32 PosInf = NegInf"
| "neg32 (F32 x) = F32 (- x)"
| "neg32 NaN = NaN"

fun add32 :: "float32 \<Rightarrow> float32 \<Rightarrow> float32" where
  "add32 (F32 x) (F32 y) = round32 (x + y)"
| "add32 NaN b = NaN"
| "add32 a NaN = NaN"
| "add32 PosInf NegInf = NaN"
| "add32 NegInf PosInf = NaN"
| "add32 (F32 x) b = b"
| "add32 a b = a"

fun mul32 :: "float32 \<Rightarrow> float32 \<Rightarrow> float32" where
  "mul32 (F32 x) (F32 y) = round32 (x * y)"
| "mul32 NaN b = NaN"
| "mul32 a NaN = NaN"
| "mul32 (F32 x) b = (if x = 0 then NaN else if x < 0 then neg32 b else b)"
| "mul32 a (F32 y) = (if y = 0 then NaN else if y < 0 then neg32 a else a)"
| "mul32 a b = (if a = b then PosInf else NegInf)"

text \<open>
  A dot product in single precision, the terms added from left to right with one
  rounding per operation. The library may add them in another order or fuse a product
  with its addition; for the vectors of the concrete runs below (at most one rounding,
  or an overflow) that makes no difference.
\<close>

definition dot32 :: "vec \<Rightarrow> vec \<Rightarrow> float32" where
  "dot32 u v = foldl (\<lambda>acc (x, y). add32 acc (mul32 (F32 x) (F32 y))) (F32 0) (zip u v)"

definition float32_arith :: "float32 float_ops" where
  "float32_arith =
     \<lparr> f_sqnorm = (\<lambda>g. dot32 g g),
       f_minus_one = F32 (- 1),
       f_einsum_bik = (\<lambda>g E k. dot32 g (E ! k)),
       f_einsum_bi = dot32,
       f_sub = (\<lambda>a b. add32 a (neg32 b)),
       f_mul = (\<lambda>s a. mul32 (round32 s) a),
       f_neg_inf = NegInf \<rparr>"

subsection \<open>The attacker object and its constructor\<close>

text \<open>
  \<open>Embedding(num_embeddings, embedding_dim, weight, trainable)\<close>: the wrapper that holds
  the embedding matrix. \<open>Hotflip\<close> holds the vocabulary of the attack namespace, the
  invalid replacement ids and the lazily built embedding (\<open>None\<close> until \<open>initialize\<close>).
\<close>

record embedding =
  num_embeddings :: nat
  embedding_dim :: nat
  weight :: matrix
  trainable :: bool

record hotflip =
  vocab :: "string list"
  invalid_replacement_indices :: "nat list"
  token_embedding :: "embedding option"

text \<open>
  \<open>str.isalnum\<close>: a non-empty string of alphanumeric characters. Which characters are
  alphanumeric is Python's Unicode table, the parameter \<open>alnum\<close>.
\<close>

definition isalnum :: "(char \<Rightarrow> bool) \<Rightarrow> string \<Rightarrow> bool" where
  "isalnum alnum s = (s \<noteq> [] \<and> list_all alnum s)"

text \<open>The ASCII part of that table, for concrete runs.\<close>

definition ascii_alnum :: "char \<Rightarrow> bool" where
  "ascii_alnum c =
     (let n = (of_char c :: nat)
      in (48 \<le> n \<and> n \<le> 57) \<or> (65 \<le> n \<and> n \<le> 90) \<or> (97 \<le> n \<and> n \<le> 122))"

text \<open>
  \<open>__init__\<close>: every id whose surface token is not alphanumeric is collected, in id
  order; the embedding is not built yet.
\<close>

definition Hotflip_init :: "(char \<Rightarrow> bool) \<Rightarrow> string list \<Rightarrow> hotflip" where
  "Hotflip_init alnum index_to_token =
     \<lparr> vocab = index_to_token,
       invalid_replacement_indices =
         filter (\<lambda>i. \<not> isalnum alnum (index_to_token ! i)) [0..<length index_to_token],
       token_embedding = None \<rparr>"

subsection \<open>The candidate selector\<close>

text \<open>
  \<open>_first_order_taylor(grad, embedding_matrix, token_idx, sign)\<close>.
  \<^item> \<open>torch.nn.functional.embedding\<close> reads row \<open>token_idx\<close>: an \<open>IndexError\<close> past the
    last row.
  \<^item> The two \<open>einsum\<close> calls are the dot products of \<open>grad\<close> with every row and with
    the current row, computed in floating point; they need every row to be
    as wide as \<open>grad\<close> (a \<open>RuntimeError\<close> otherwise).
  \<^item> \<open>neg_dir_dot_grad[:,:,invalid] = -inf\<close> is a fancy-index assignment: numpy checks
    every index first (\<open>IndexError\<close>), then writes.
  \<^item> \<open>argmax(2)\<close> is the first maximum along the vocabulary axis.
\<close>

definition first_order_taylor ::
  "'f::linorder float_ops \<Rightarrow> nat list \<Rightarrow> vec \<Rightarrow> matrix \<Rightarrow> nat \<Rightarrow> rat \<Rightarrow> error + nat" where
  "first_order_taylor ar invalid grad embedding_matrix token_idx sign =
     (if \<not> token_idx < length embedding_matrix then Inl IndexError
      else if \<not> list_all (\<lambda>row. length row = length grad) embedding_matrix
        then Inl RuntimeError
      else
        let word_embeds = embedding_matrix ! token_idx;
            new_embed_dot_grad =
              map (f_einsum_bik ar grad embedding_matrix) [0..<length embedding_matrix];
            prev_embed_dot_grad = f_einsum_bi ar grad word_embeds;
            neg_dir_dot_grad =
              map (\<lambda>n. f_mul ar sign (f_sub ar prev_embed_dot_grad n)) new_embed_dot_grad
        in if \<not> list_all (\<lambda>i. i < length neg_dir_dot_grad) invalid then Inl IndexError
           else argmax (fold (\<lambda>i ds. ds[i := f_neg_inf ar]) invalid neg_dir_dot_grad))"

text \<open>
  The score of candidate \<open>k\<close> as the code computes it: \<open>sign * (g . E[t] - g . E[k])\<close>
  in the arithmetic \<open>ar\<close>, and \<open>-inf\<close> for a candidate of the invalid-replacement set.
\<close>

definition computed_score ::
  "'f float_ops \<Rightarrow> nat list \<Rightarrow> vec \<Rightarrow> matrix \<Rightarrow> nat \<Rightarrow> rat \<Rightarrow> nat \<Rightarrow> 'f" where
  "computed_score ar invalid g E t s k =
     (if k \<in> set invalid then f_neg_inf ar
      else f_mul ar s (f_sub ar (f_einsum_bi ar g (E ! t)) (f_einsum_bik ar g E k)))"

text \<open>
  The score of the spec's selection rule, for comparison with the code: for candidate
  \<open>k\<close> the scalar \<open>d_k = s * (g . E[t] - g . E[k])\<close>, and minus infinity for a
  candidate of the invalid-replacement set.
\<close>

definition taylor_score :: "nat list \<Rightarrow> vec \<Rightarrow> matrix \<Rightarrow> nat \<Rightarrow> rat \<Rightarrow> nat \<Rightarrow> rat option" where
  "taylor_score invalid g E t s k =
     (if k \<in> set invalid then None else Some (s * (dot g (E ! t) - dot g (E ! k))))"

subsection \<open>Construction of the embedding matrix\<close>

text \<open>
  The token indexers of the dataset reader. The two kinds the source handles carry their
  external encoders: for \<open>TokenCharactersIndexer\<close>, \<open>tokens_to_indices\<close> followed by
  \<open>as_padded_tensor\<close> (all tokens and the padding length to the padded character ids);
  for \<open>ELMoTokenCharactersIndexer\<close>, \<open>tokens_to_indices\<close> on one token (the list under
  \<open>"sentence"\<close>). Every other indexer adds nothing to the batch.
\<close>

datatype token_indexer =
    TokenCharactersIndexer "string list \<Rightarrow> nat \<Rightarrow> nat list list"
  | ELMoTokenCharactersIndexer "string \<Rightarrow> nat list list"
  | OtherIndexer

text \<open>The batch \<open>all_inputs\<close>: the keys \<open>"tokens"\<close>, \<open>"token_characters"\<close>, \<open>"elmo"\<close>.\<close>

record all_inputs =
  tokens_input :: "nat list"
  token_characters :: "nat list list option"
  elmo :: "nat list list option"

text \<open>
  The embedding layer found by \<open>util.find_embedding_layer\<close>: \<open>lookup_table\<close> is
  \<open>Some w\<close> when the layer is a \<open>torch.nn.Embedding\<close> with weight \<open>w\<close>; \<open>forward\<close> is
  the call \<open>embedding_layer(all_inputs)\<close>, which returns the embeddings of the one
  batch element (a tensor of shape \<open>(1, N, D)\<close>, given by its \<open>N\<close> rows) or fails.
\<close>

record embedding_layer =
  lookup_table :: "matrix option"
  forward :: "all_inputs \<Rightarrow> error + matrix"

record model_env =
  token_indexers :: "token_indexer list"
  the_embedding_layer :: embedding_layer

text \<open>\<open>embedding_matrix.shape[1]\<close>; the width of a matrix without rows is read as 0.\<close>

definition ncols :: "matrix \<Rightarrow> nat" where
  "ncols m = (case m of [] \<Rightarrow> 0 | row # _ \<Rightarrow> length row)"

text \<open>
  \<open>.squeeze()\<close> on the \<open>(1, N, D)\<close> result drops every axis of size 1: with \<open>N = 1\<close>
  or \<open>D = 1\<close> fewer than two axes remain and \<open>shape[1]\<close> raises an \<open>IndexError\<close>.
\<close>

definition squeeze_rows :: "matrix \<Rightarrow> error + matrix" where
  "squeeze_rows m =
     (if length m = 1 \<or> (m \<noteq> [] \<and> ncols m = 1) then Inl IndexError else Inr m)"

text \<open>
  Modelled from the spec: the wrapper class \<open>Embedding\<close> is not among the sources. The
  spec's data model gives its invariant: an EmbeddingMatrix is \<open>N\<close> vectors of fixed
  dimension \<open>D\<close>, with \<open>N\<close> the declared number of rows. The constructor keeps the four
  arguments the source passes and refuses a weight of any other shape.
\<close>

definition Embedding :: "nat \<Rightarrow> nat \<Rightarrow> matrix \<Rightarrow> bool \<Rightarrow> error + embedding" where
  "Embedding n d w t =
     (if length w = n \<and> list_all (\<lambda>row. length row = d) w
      then Inr \<lparr> num_embeddings = n, embedding_dim = d, weight = w, trainable = t \<rparr>
      else Inl ConfigurationError)"

text \<open>One pass of the loop over the token indexers (both tests are \<open>if\<close>s).\<close>

fun elmo_tokens :: "(string \<Rightarrow> nat list list) \<Rightarrow> string list \<Rightarrow> error + nat list list" where
  "elmo_tokens enc [] = Inr []"
| "elmo_tokens enc (token # ts) =
     (case enc token of
        [] \<Rightarrow> Inl IndexError
      | first # _ \<Rightarrow>
          (case elmo_tokens enc ts of Inl e \<Rightarrow> Inl e | Inr r \<Rightarrow> Inr (first # r)))"

fun add_indexer_inputs :: "string list \<Rightarrow> token_indexer \<Rightarrow> all_inputs \<Rightarrow> error + all_inputs" where
  "add_indexer_inputs all_tokens (TokenCharactersIndexer enc) inp =
     (if all_tokens = [] then Inl (ValueError ''max() arg is an empty sequence'')
      else
        let max_token_length = fold max (map length all_tokens) 0
        in Inr (inp\<lparr> token_characters := Some (enc all_tokens max_token_length) \<rparr>))"
| "add_indexer_inputs all_tokens (ELMoTokenCharactersIndexer enc) inp =
     (case elmo_tokens enc all_tokens of
        Inl e \<Rightarrow> Inl e
      | Inr r \<Rightarrow> Inr (inp\<lparr> elmo := Some r \<rparr>))"
| "add_indexer_inputs all_tokens OtherIndexer inp = Inr inp"

fun build_all_inputs :: "string list \<Rightarrow> token_indexer list \<Rightarrow> all_inputs \<Rightarrow> error + all_inputs" where
  "build_all_inputs all_tokens [] inp = Inr inp"
| "build_all_inputs all_tokens (ix # ixs) inp =
     (case add_indexer_inputs all_tokens ix inp of
        Inl e \<Rightarrow> Inl e
      | Inr inp' \<Rightarrow> build_all_inputs all_tokens ixs inp')"

text \<open>\<open>_construct_embedding_matrix\<close>.\<close>

definition construct_embedding_matrix :: "hotflip \<Rightarrow> model_env \<Rightarrow> error + embedding" where
  "construct_embedding_matrix self M =
     (let all_tokens = vocab self;
          all_indices = [0..<length (vocab self)]
      in case build_all_inputs all_tokens (token_indexers M)
                \<lparr> tokens_input = all_indices, token_characters = None, elmo = None \<rparr> of
           Inl e \<Rightarrow> Inl e
         | Inr inputs \<Rightarrow>
             (case (case lookup_table (the_embedding_layer M) of
                      Some w \<Rightarrow> Inr w
                    | None \<Rightarrow>
                        (case forward (the_embedding_layer M) inputs of
                           Inl e \<Rightarrow> Inl e
                         | Inr out \<Rightarrow> squeeze_rows out)) of
                Inl e \<Rightarrow> Inl e
              | Inr embedding_matrix \<Rightarrow>
                  Embedding (length (vocab self)) (ncols embedding_matrix)
                    embedding_matrix False))"

text \<open>\<open>initialize\<close>, and the guard \<open>if self.token_embedding is None: self.initialize()\<close>.\<close>

definition initialize :: "hotflip \<Rightarrow> model_env \<Rightarrow> error + hotflip" where
  "initialize self M =
     (case construct_embedding_matrix self M of
        Inl e \<Rightarrow> Inl e
      | Inr emb \<Rightarrow> Inr (self\<lparr> token_embedding := Some emb \<rparr>))"

definition initialize_if_needed :: "hotflip \<Rightarrow> model_env \<Rightarrow> error + hotflip" where
  "initialize_if_needed self M =
     (case token_embedding self of None \<Rightarrow> initialize self M | Some _ \<Rightarrow> Inr self)"

subsection \<open>Instances, model outputs and the predictor interface\<close>

text \<open>
  An \<open>Instance\<close> as the attack sees it: the token texts of the field under attack
  (\<open>input_field_to_attack\<close> selects it, once per call) and, under \<open>labels\<close>, the
  remaining fields by name.
\<close>

record 'v Instance =
  tokens :: "string list"
  labels :: "(string \<times> 'v) list"

text \<open>
  The outputs dictionary of \<open>get_gradients\<close>. \<open>clusters\<close> is \<open>Some cs\<close> when the key
  \<open>'clusters'\<close> is present: \<open>cs\<close> is the entry of the one batch element, a list of
  clusters, each a list of mentions \<open>(first, last)\<close>. Every read of it in the source
  comes after the loop that replaces a list entry by its element 0. \<open>rest\<close> stands for
  the other entries.
\<close>

record 'o output_dict =
  clusters :: "(nat \<times> nat) list list option"
  rest :: 'o

text \<open>
  The external operations. \<open>get_gradients\<close> returns \<open>grads[grad_input_field]\<close> (one
  vector per position) and the outputs. \<open>label_with_target\<close> is
  \<open>predictions_to_labeled_instances(instance, {'words': [target]})\<close>. \<open>index_tokens\<close>
  gives \<open>_indexed_tokens[namespace]\<close> of the text field as the last indexing left it.
  \<open>unbatch\<close> is the effect on the other entries of the loop
  \<open>for key, output in outputs.items()\<close> (tensors detached and squeezed, lists replaced
  by their element 0). \<open>get_fields_to_compare\<close> is the function of that name in
  \<open>attackers/utils\<close>. \<open>arith\<close> is the floating-point arithmetic of the libraries the
  attack computes with.
\<close>

record ('j, 'v, 'o, 'f) predictor =
  json_to_labeled_instances :: "'j \<Rightarrow> error + 'v Instance list"
  json_to_instance :: "'j \<Rightarrow> error + 'v Instance"
  label_with_target :: "'v Instance \<Rightarrow> string \<Rightarrow> error + 'v Instance list"
  predictions_to_labeled_instances :: "'v Instance \<Rightarrow> 'o output_dict \<Rightarrow> error + 'v Instance list"
  get_gradients :: "'v Instance \<Rightarrow> error + (vec list \<times> 'o output_dict)"
  index_tokens :: "string list \<Rightarrow> nat list"
  unbatch :: "'o \<Rightarrow> error + 'o"
  get_fields_to_compare :: "'j \<Rightarrow> 'v Instance \<Rightarrow> (string \<times> 'v) list"
  arith :: "'f float_ops"

text \<open>
  Modelled from the spec: \<open>utils.instance_has_changed\<close> is not among the sources. By
  the spec the check holds when any of the designated comparison fields differs from the
  reference: \<open>fields_to_compare\<close> maps each designated field to its reference content.
\<close>

definition instance_has_changed :: "'v Instance \<Rightarrow> (string \<times> 'v) list \<Rightarrow> bool" where
  "instance_has_changed inst fields_to_compare =
     list_ex (\<lambda>(field, reference). map_of (labels inst) field \<noteq> Some reference)
       fields_to_compare"

definition squeeze_outputs ::
  "('j, 'v, 'o, 'f::linorder) predictor \<Rightarrow> 'o output_dict \<Rightarrow> error + 'o output_dict" where
  "squeeze_outputs P outs =
     (case unbatch P (rest outs) of
        Inl e \<Rightarrow> Inl e
      | Inr r \<Rightarrow> Inr (outs\<lparr> rest := r \<rparr>))"

subsection \<open>The mask and the choice of the position to flip\<close>

text \<open>The two attacks; the targeted one carries its optional \<open>target_word\<close>.\<close>

datatype mode = Untargeted | Targeted "string option"

definition default_ignore_tokens :: "string list" where
  "default_ignore_tokens = [''@@NULL@@'', ''.'', '','', '';'', ''!'', ''?'']"

text \<open>
  The initial value of \<open>flipped\<close>. The untargeted attack, and the targeted one without
  a target word, put in every position whose text is in the ignore list; the targeted
  attack with a target word puts in every position whose text is not that word.
\<close>

fun initial_flipped :: "mode \<Rightarrow> string list \<Rightarrow> string list \<Rightarrow> nat list" where
  "initial_flipped (Targeted (Some target_word)) ignore_tokens current_tokens =
     filter (\<lambda>index. current_tokens ! index \<noteq> target_word) [0..<length current_tokens]"
| "initial_flipped m ignore_tokens current_tokens =
     filter (\<lambda>index. current_tokens ! index \<in> set ignore_tokens) [0..<length current_tokens]"

text \<open>The positions \<open>range(mention[0], mention[1]+1)\<close> of every mention, in loop order.\<close>

definition mention_indices :: "(nat \<times> nat) list list \<Rightarrow> nat list" where
  "mention_indices cs =
     concat (map (\<lambda>mention. [fst mention..<snd mention + 1]) (concat cs))"

text \<open>\<open>grads_magnitude\<close> after both masking loops.\<close>

definition masked_magnitude ::
  "'f float_ops \<Rightarrow> nat list \<Rightarrow> (nat \<times> nat) list list option \<Rightarrow> vec list \<Rightarrow>
   error + 'f list" where
  "masked_magnitude ar flipped_now cs grad =
     (let grads_magnitude = map (f_sqnorm ar) grad
      in case set_each (f_minus_one ar) flipped_now grads_magnitude of
           Inl e \<Rightarrow> Inl e
         | Inr gm \<Rightarrow>
             (case cs of
                None \<Rightarrow> Inr gm
              | Some cl \<Rightarrow> set_each (f_minus_one ar) (mention_indices cl) gm))"

text \<open>
  \<open>index_of_token_to_flip\<close>, or \<open>None\<close> where the source leaves the loop because the
  largest magnitude is \<open>-1\<close>.
\<close>

definition select_position ::
  "'f::linorder float_ops \<Rightarrow> nat list \<Rightarrow> (nat \<times> nat) list list option \<Rightarrow> vec list \<Rightarrow>
   error + nat option" where
  "select_position ar flipped_now cs grad =
     (case masked_magnitude ar flipped_now cs grad of
        Inl e \<Rightarrow> Inl e
      | Inr grads_magnitude \<Rightarrow>
          (case argmax grads_magnitude of
             Inl e \<Rightarrow> Inl e
           | Inr index_of_token_to_flip \<Rightarrow>
               if grads_magnitude ! index_of_token_to_flip = f_minus_one ar then Inr None
               else Inr (Some index_of_token_to_flip)))"

subsection \<open>One pass of the attack loop\<close>

text \<open>
  The variables of the \<open>while\<close> loop. The token list of \<open>current_instance\<close> is the list
  \<open>current_tokens\<close> that the source updates in place.
\<close>

record ('v, 'o) attack_state =
  current_instance :: "'v Instance"
  flipped :: "nat list"
  grads :: "vec list"
  outputs :: "'o output_dict"

fun sign_of :: "mode \<Rightarrow> rat" where
  "sign_of Untargeted = - 1"
| "sign_of (Targeted target_word) = 1"

text \<open>
  From \<open>flipped.append\<close> to the relabelling of the instance: the selector picks the new
  id, the token is replaced in place, the model is run again and its outputs unbatched.
  The result is the new state and \<open>current_instance_labeled\<close>.
\<close>

definition flip_token ::
  "hotflip \<Rightarrow> ('j, 'v, 'o, 'f::linorder) predictor \<Rightarrow> rat \<Rightarrow> ('v, 'o) attack_state \<Rightarrow> nat \<Rightarrow>
   error + (('v, 'o) attack_state \<times> 'v Instance)" where
  "flip_token self P sign s index_of_token_to_flip =
     (let flipped' = flipped s @ [index_of_token_to_flip];
          input_tokens = index_tokens P (tokens (current_instance s))
      in case item input_tokens index_of_token_to_flip of
           Inl e \<Rightarrow> Inl e
         | Inr original_id_of_token_to_flip \<Rightarrow>
       case item (grads s) index_of_token_to_flip of
           Inl e \<Rightarrow> Inl e
         | Inr g \<Rightarrow>
       case token_embedding self of
           None \<Rightarrow> Inl AttributeError
         | Some emb \<Rightarrow>
       case first_order_taylor (arith P) (invalid_replacement_indices self) g (weight emb)
              original_id_of_token_to_flip sign of
           Inl e \<Rightarrow> Inl e
         | Inr new_id_of_flipped_token \<Rightarrow>
       case item (vocab self) new_id_of_flipped_token of
           Inl e \<Rightarrow> Inl KeyError
         | Inr new_token \<Rightarrow>
       if \<not> index_of_token_to_flip < length (tokens (current_instance s)) then Inl IndexError
       else
         let inst' = (current_instance s)
               \<lparr> tokens := (tokens (current_instance s))[index_of_token_to_flip := new_token] \<rparr>
         in case get_gradients P inst' of
              Inl e \<Rightarrow> Inl e
            | Inr (grads', outs) \<Rightarrow>
          case squeeze_outputs P outs of
              Inl e \<Rightarrow> Inl e
            | Inr outs' \<Rightarrow>
          case predictions_to_labeled_instances P inst' outs' of
              Inl e \<Rightarrow> Inl e
            | Inr [] \<Rightarrow> Inl IndexError
            | Inr (current_instance_labeled # _) \<Rightarrow>
                Inr (\<lparr> current_instance = inst', flipped = flipped', grads = grads',
                       outputs = outs' \<rparr>, current_instance_labeled))"

text \<open>
  The test on the structured spans, the same expression in both attacks:
  \<open>set(tuple(l) for l in original_outputs['clusters']) != set(tuple(l) for l in
  outputs['clusters'])\<close>. \<open>original_outputs\<close> is assigned only where the outputs of the
  first run hold clusters: read unassigned it is a \<open>NameError\<close>.
\<close>

definition span_sets_differ ::
  "'o output_dict option \<Rightarrow> (nat \<times> nat) list list \<Rightarrow> error + bool" where
  "span_sets_differ original_outputs cs =
     (case original_outputs of
        None \<Rightarrow> Inl NameError
      | Some oo \<Rightarrow>
          (case clusters oo of
             None \<Rightarrow> Inl KeyError
           | Some ocs \<Rightarrow> Inr (set ocs \<noteq> set cs)))"

text \<open>
  The stopping checks: \<open>True\<close> where the source reaches a \<open>break\<close>. The untargeted
  attack tests the comparison fields in an \<open>elif\<close>, the targeted one in an \<open>if\<close> of its
  own, negated.
\<close>

fun stop_check ::
  "mode \<Rightarrow> 'o output_dict option \<Rightarrow> 'o output_dict \<Rightarrow> 'v Instance \<Rightarrow>
   (string \<times> 'v) list \<Rightarrow> error + bool" where
  "stop_check Untargeted original_outputs outs labeled fields_to_compare =
     (case clusters outs of
        Some cs \<Rightarrow> span_sets_differ original_outputs cs
      | None \<Rightarrow> Inr (instance_has_changed labeled fields_to_compare))"
| "stop_check (Targeted target_word) original_outputs outs labeled fields_to_compare =
     (case (case clusters outs of
              Some cs \<Rightarrow> span_sets_differ original_outputs cs
            | None \<Rightarrow> Inr False) of
        Inl e \<Rightarrow> Inl e
      | Inr True \<Rightarrow> Inr True
      | Inr False \<Rightarrow> Inr (\<not> instance_has_changed labeled fields_to_compare))"

text \<open>
  The outcome of one pass: the loop is left because no position is eligible
  (\<open>Exhausted\<close>, nothing changed), left by the stopping check after a flip (\<open>Stopped\<close>),
  or goes on (\<open>Running\<close>).
\<close>

datatype 's outcome = Exhausted 's | Stopped 's | Running 's

definition attack_step ::
  "hotflip \<Rightarrow> ('j, 'v, 'o, 'f::linorder) predictor \<Rightarrow> mode \<Rightarrow> (string \<times> 'v) list \<Rightarrow>
   'o output_dict option \<Rightarrow> ('v, 'o) attack_state \<Rightarrow> error + ('v, 'o) attack_state outcome" where
  "attack_step self P m fields_to_compare original_outputs s =
     (case select_position (arith P) (flipped s) (clusters (outputs s)) (grads s) of
        Inl e \<Rightarrow> Inl e
      | Inr None \<Rightarrow> Inr (Exhausted s)
      | Inr (Some index_of_token_to_flip) \<Rightarrow>
          (case flip_token self P (sign_of m) s index_of_token_to_flip of
             Inl e \<Rightarrow> Inl e
           | Inr (s', current_instance_labeled) \<Rightarrow>
               (case stop_check m original_outputs (outputs s') current_instance_labeled
                       fields_to_compare of
                  Inl e \<Rightarrow> Inl e
                | Inr True \<Rightarrow> Inr (Stopped s')
                | Inr False \<Rightarrow> Inr (Running s'))))"

subsection \<open>The loop\<close>

text \<open>
  What is left to flip: the positions of the sequence that are not in \<open>flipped\<close>. Every
  pass that goes on has added one of them, which is why the loop ends.
\<close>

definition unflipped :: "('v, 'o) attack_state \<Rightarrow> nat" where
  "unflipped s = card ({..<length (tokens (current_instance s))} - set (flipped s))"

text \<open>Facts about \<open>argmax\<close>, the masking loops and one pass, used for termination and below.\<close>

lemma argmax_from_spec:
  "argmax_from b bi i xs = k \<Longrightarrow>
   (k = bi \<and> (\<forall>x\<in>set xs. x \<le> b)) \<or>
   (i \<le> k \<and> k < i + length xs \<and> b < xs ! (k - i) \<and>
    (\<forall>j<length xs. xs ! j \<le> xs ! (k - i)) \<and> (\<forall>j<k - i. xs ! j < xs ! (k - i)))"
proof (induction xs arbitrary: b bi i k)
  case Nil
  then show ?case by simp
next
  case (Cons x xs)
  show ?case
  proof (cases "b < x")
    case True
    with Cons.prems have "argmax_from x i (Suc i) xs = k" by simp
    from Cons.IH[OF this] show ?thesis
    proof
      assume "k = i \<and> (\<forall>y\<in>set xs. y \<le> x)"
      with True show ?thesis by (auto simp: nth_Cons split: nat.splits)
    next
      assume a: "Suc i \<le> k \<and> k < Suc i + length xs \<and> x < xs ! (k - Suc i) \<and>
        (\<forall>j<length xs. xs ! j \<le> xs ! (k - Suc i)) \<and> (\<forall>j<k - Suc i. xs ! j < xs ! (k - Suc i))"
      then obtain m where m: "k - i = Suc m" "k - Suc i = m" by (metis Suc_diff_Suc Suc_le_lessD diff_Suc_eq_diff_pred diff_Suc_1)
      with a True show ?thesis by (auto simp: nth_Cons split: nat.splits)
    qed
  next
    case False
    with Cons.prems have "argmax_from b bi (Suc i) xs = k" by simp
    from Cons.IH[OF this] show ?thesis
    proof
      assume "k = bi \<and> (\<forall>y\<in>set xs. y \<le> b)"
      with False show ?thesis by auto
    next
      assume a: "Suc i \<le> k \<and> k < Suc i + length xs \<and> b < xs ! (k - Suc i) \<and>
        (\<forall>j<length xs. xs ! j \<le> xs ! (k - Suc i)) \<and> (\<forall>j<k - Suc i. xs ! j < xs ! (k - Suc i))"
      then obtain m where m: "k - i = Suc m" "k - Suc i = m" by (metis Suc_diff_Suc Suc_le_lessD diff_Suc_eq_diff_pred diff_Suc_1)
      with a False show ?thesis by (auto simp: nth_Cons split: nat.splits)
    qed
  qed
qed

lemma argmax_first_max:
  assumes "argmax xs = Inr k"
  shows "k < length xs \<and> (\<forall>j<length xs. xs ! j \<le> xs ! k) \<and> (\<forall>j<k. xs ! j < xs ! k)"
proof (cases xs)
  case Nil
  with assms show ?thesis by (simp add: argmax_def)
next
  case (Cons x rest)
  with assms have k: "argmax_from x 0 1 rest = k" by (simp add: argmax_def)
  from argmax_from_spec[OF k] show ?thesis
  proof
    assume "k = 0 \<and> (\<forall>y\<in>set rest. y \<le> x)"
    with Cons show ?thesis by (auto simp: nth_Cons split: nat.splits)
  next
    assume a: "1 \<le> k \<and> k < 1 + length rest \<and> x < rest ! (k - 1) \<and>
      (\<forall>j<length rest. rest ! j \<le> rest ! (k - 1)) \<and> (\<forall>j<k - 1. rest ! j < rest ! (k - 1))"
    then obtain m where m: "k = Suc m" by (cases k) auto
    with a Cons show ?thesis by (auto simp: nth_Cons split: nat.splits)
  qed
qed

lemma argmax_nonempty: "xs \<noteq> [] \<Longrightarrow> \<exists>k. argmax xs = Inr k"
  by (cases xs) (auto simp: argmax_def)

lemma fold_mask_length: "length (fold (\<lambda>i ds. ds[i := v]) is xs) = length xs"
  by (induction "is" arbitrary: xs) auto

lemma fold_mask_nth:
  "j < length xs \<Longrightarrow>
   fold (\<lambda>i ds. ds[i := v]) is xs ! j = (if j \<in> set is then v else xs ! j)"
  by (induction "is" arbitrary: xs) (auto simp: nth_list_update)

lemma set_each_Inr:
  "set_each v is xs = Inr ys \<Longrightarrow>
   length ys = length xs \<and> (\<forall>i\<in>set is. i < length xs) \<and>
   (\<forall>j<length xs. ys ! j = (if j \<in> set is then v else xs ! j))"
proof (induction "is" arbitrary: xs)
  case Nil
  then show ?case by simp
next
  case (Cons a "is")
  from Cons.prems have a: "a < length xs" and r: "set_each v is (xs[a := v]) = Inr ys"
    by (auto split: if_splits)
  from Cons.IH[OF r] a show ?case
    by (auto simp: nth_list_update)
qed

lemma set_each_ok:
  "\<forall>i\<in>set is. i < length xs \<Longrightarrow> \<exists>ys. set_each v is xs = Inr ys"
  by (induction "is" arbitrary: xs) auto

lemma masked_magnitude_Inr:
  assumes "masked_magnitude ar fl cs grad = Inr gm"
  shows "length gm = length grad \<and>
    (\<forall>i\<in>set fl. i < length grad) \<and>
    (\<forall>cl. cs = Some cl \<longrightarrow> (\<forall>i\<in>set (mention_indices cl). i < length grad)) \<and>
    (\<forall>j<length grad. gm ! j =
           (if j \<in> set fl \<or> (\<exists>cl. cs = Some cl \<and> j \<in> set (mention_indices cl))
            then f_minus_one ar else f_sqnorm ar (grad ! j)))"
proof -
  from assms obtain gm1 where
    g1: "set_each (f_minus_one ar) fl (map (f_sqnorm ar) grad) = Inr gm1" and
    g2: "(case cs of None \<Rightarrow> Inr gm1
          | Some cl \<Rightarrow> set_each (f_minus_one ar) (mention_indices cl) gm1) = Inr gm"
    by (auto simp: masked_magnitude_def split: sum.splits)
  note a = set_each_Inr[OF g1]
  show ?thesis
  proof (cases cs)
    case None
    with g2 a show ?thesis by auto
  next
    case (Some cl)
    with g2 have "set_each (f_minus_one ar) (mention_indices cl) gm1 = Inr gm" by simp
    note b = set_each_Inr[OF this]
    from a b Some show ?thesis by auto
  qed
qed

lemma select_position_Some:
  assumes "select_position ar fl cs grad = Inr (Some k)"
  shows "k < length grad" and "k \<notin> set fl"
    and "\<And>cl. cs = Some cl \<Longrightarrow> k \<notin> set (mention_indices cl)"
    and "\<forall>i\<in>set fl. i < length grad"
proof -
  from assms obtain gm where gm: "masked_magnitude ar fl cs grad = Inr gm"
    and am: "argmax gm = Inr k" and ne: "gm ! k \<noteq> f_minus_one ar"
    by (auto simp: select_position_def split: sum.splits if_splits)
  from masked_magnitude_Inr[OF gm] have m1: "length gm = length grad"
    and m2: "\<forall>i\<in>set fl. i < length grad"
    and m4: "\<forall>j<length grad. gm ! j =
           (if j \<in> set fl \<or> (\<exists>cl. cs = Some cl \<and> j \<in> set (mention_indices cl))
            then f_minus_one ar else f_sqnorm ar (grad ! j))" by blast+
  from argmax_first_max[OF am] m1 show k: "k < length grad" by simp
  from m4 k ne show "k \<notin> set fl" by auto
  from m2 show "\<forall>i\<in>set fl. i < length grad" .
  fix cl assume "cs = Some cl"
  with m4 k ne show "k \<notin> set (mention_indices cl)" by auto
qed

lemma flip_token_Inr:
  assumes "flip_token self P sg s k = Inr (s', lab)"
  shows "flipped s' = flipped s @ [k]"
    and "k < length (tokens (current_instance s))"
    and "length (tokens (current_instance s')) = length (tokens (current_instance s))"
  using assms
  by (auto simp: flip_token_def Let_def split: sum.splits option.splits if_splits list.splits)

lemma attack_step_flip:
  assumes "attack_step self P m ftc oo s = Inr r" and "r = Stopped s' \<or> r = Running s'"
  shows "\<exists>k. flipped s' = flipped s @ [k] \<and> k \<notin> set (flipped s) \<and>
           k < length (tokens (current_instance s)) \<and> k < length (grads s) \<and>
           (\<forall>cl. clusters (outputs s) = Some cl \<longrightarrow> k \<notin> set (mention_indices cl)) \<and>
           length (tokens (current_instance s')) = length (tokens (current_instance s))"
proof -
  from assms obtain k lab where
    sel: "select_position (arith P) (flipped s) (clusters (outputs s)) (grads s) =
            Inr (Some k)" and
    fl: "flip_token self P (sign_of m) s k = Inr (s', lab)"
    by (auto simp: attack_step_def split: sum.splits option.splits bool.splits prod.splits)
  from select_position_Some[OF sel] flip_token_Inr[OF fl] show ?thesis by auto
qed

lemma attack_step_Exhausted:
  "attack_step self P m ftc oo s = Inr (Exhausted s') \<Longrightarrow> s' = s"
  by (auto simp: attack_step_def split: sum.splits option.splits bool.splits prod.splits)

lemma attack_step_Running_decreases:
  assumes "attack_step self P m ftc oo s = Inr (Running s')"
  shows "unflipped s' < unflipped s"
proof -
  from attack_step_flip[OF assms] obtain k where
    k: "flipped s' = flipped s @ [k]" "k \<notin> set (flipped s)"
       "k < length (tokens (current_instance s))"
       "length (tokens (current_instance s')) = length (tokens (current_instance s))"
    by auto
  let ?A = "{..<length (tokens (current_instance s))} - set (flipped s)"
  have "{..<length (tokens (current_instance s'))} - set (flipped s') = ?A - {k}"
    using k by auto
  moreover have "k \<in> ?A" using k by auto
  moreover have "finite ?A" by simp
  ultimately show ?thesis unfolding unflipped_def
    by (metis card_Diff1_less)
qed

text \<open>
  \<open>while True\<close>: the passes in sequence. The first component counts the completed
  passes, those that flipped a token and re-evaluated the model; it is not a variable of
  the source. The second is the error that left the loop or the state at the \<open>break\<close>.
\<close>

function attack_loop ::
  "hotflip \<Rightarrow> ('j, 'v, 'o, 'f::linorder) predictor \<Rightarrow> mode \<Rightarrow> (string \<times> 'v) list \<Rightarrow>
   'o output_dict option \<Rightarrow> ('v, 'o) attack_state \<Rightarrow> nat \<times> (error + ('v, 'o) attack_state)" where
  "attack_loop self P m fields_to_compare original_outputs s =
     (case attack_step self P m fields_to_compare original_outputs s of
        Inl e \<Rightarrow> (0, Inl e)
      | Inr (Exhausted s') \<Rightarrow> (0, Inr s')
      | Inr (Stopped s') \<Rightarrow> (1, Inr s')
      | Inr (Running s') \<Rightarrow>
          (case attack_loop self P m fields_to_compare original_outputs s' of
             (n, r) \<Rightarrow> (Suc n, r)))"
  by pat_completeness auto
termination attack_loop
  by (relation "measure (\<lambda>(self, P, m, ftc, oo, s). unflipped s)")
     (auto dest: attack_step_Running_decreases)

declare attack_loop.simps [simp del]

subsection \<open>The attacks\<close>

text \<open>
  The body of \<open>for i, current_instance in enumerate(original_instances)\<close> up to the end
  of the \<open>while\<close> loop: the first run of the model, the snapshot \<open>original_outputs\<close>
  (a variable of the whole call: it keeps its last value where the outputs hold no
  clusters), the initial mask, the loop.
\<close>

definition attack_instance ::
  "hotflip \<Rightarrow> ('j, 'v, 'o, 'f::linorder) predictor \<Rightarrow> mode \<Rightarrow> string list \<Rightarrow> 'j \<Rightarrow>
   'o output_dict option \<Rightarrow> 'v Instance \<Rightarrow>
   error + (('v, 'o) attack_state \<times> 'o output_dict option)" where
  "attack_instance self P m ignore_tokens inputs original_outputs inst =
     (let fields_to_compare = get_fields_to_compare P inputs inst
      in case get_gradients P inst of
           Inl e \<Rightarrow> Inl e
         | Inr (grads0, outs) \<Rightarrow>
       case (case clusters outs of
               None \<Rightarrow> Inr (outs, original_outputs)
             | Some _ \<Rightarrow>
                 (case squeeze_outputs P outs of
                    Inl e \<Rightarrow> Inl e
                  | Inr outs' \<Rightarrow> Inr (outs', Some outs'))) of
           Inl e \<Rightarrow> Inl e
         | Inr (outs', original_outputs') \<Rightarrow>
       case snd (attack_loop self P m fields_to_compare original_outputs'
                   \<lparr> current_instance = inst,
                     flipped = initial_flipped m ignore_tokens (tokens inst),
                     grads = grads0, outputs = outs' \<rparr>) of
           Inl e \<Rightarrow> Inl e
         | Inr s \<Rightarrow> Inr (s, original_outputs'))"

text \<open>
  The \<open>for\<close> loop: \<open>final_tokens\<close> collects the token list of every instance attacked,
  \<open>outs\<close> is the variable \<open>outputs\<close> as the last instance left it, and the loop is left
  after the first instance whose outputs hold clusters.
\<close>

fun attack_instances ::
  "hotflip \<Rightarrow> ('j, 'v, 'o, 'f::linorder) predictor \<Rightarrow> mode \<Rightarrow> string list \<Rightarrow> 'j \<Rightarrow>
   'o output_dict option \<Rightarrow> string list list \<Rightarrow> 'o output_dict option \<Rightarrow>
   'v Instance list \<Rightarrow> error + (string list list \<times> 'o output_dict option)" where
  "attack_instances self P m ignore_tokens inputs original_outputs final_tokens outs [] =
     Inr (final_tokens, outs)"
| "attack_instances self P m ignore_tokens inputs original_outputs final_tokens outs
     (inst # later) =
     (case attack_instance self P m ignore_tokens inputs original_outputs inst of
        Inl e \<Rightarrow> Inl e
      | Inr (s, original_outputs') \<Rightarrow>
          let final_tokens' = final_tokens @ [tokens (current_instance s)]
          in if clusters (outputs s) \<noteq> None then Inr (final_tokens', Some (outputs s))
             else attack_instances self P m ignore_tokens inputs original_outputs'
                    final_tokens' (Some (outputs s)) later)"

text \<open>
  The returned dictionary, keys \<open>"final"\<close>, \<open>"original"\<close> and \<open>"outputs"\<close>. (\<open>sanitize\<close>
  turns tokens into their texts and tensors into lists; on this data it changes nothing.)
\<close>

record 'o attack_result =
  final :: "string list list"
  original :: "string list"
  raw_outputs :: "'o output_dict"

text \<open>
  What both attacks do with \<open>original_instances\<close>: the snapshot of the tokens of
  instance 0 (an \<open>IndexError\<close> on an empty list), the \<open>for\<close> loop, the result.
\<close>

definition attack_all ::
  "hotflip \<Rightarrow> ('j, 'v, 'o, 'f::linorder) predictor \<Rightarrow> mode \<Rightarrow> string list \<Rightarrow> 'j \<Rightarrow>
   'v Instance list \<Rightarrow> error + 'o attack_result" where
  "attack_all self P m ignore_tokens inputs original_instances =
     (case original_instances of
        [] \<Rightarrow> Inl IndexError
      | first # _ \<Rightarrow>
          let original_tokens = tokens first
          in case attack_instances self P m ignore_tokens inputs None [] None
                    original_instances of
               Inl e \<Rightarrow> Inl e
             | Inr (final_tokens, None) \<Rightarrow> Inl NameError
             | Inr (final_tokens, Some outs) \<Rightarrow>
                 Inr \<lparr> final = final_tokens, original = original_tokens,
                        raw_outputs = outs \<rparr>)"

text \<open>
  \<open>attack_from_json\<close>. The first component of the result is the attacker object after
  the call: the embedding stays built even where the attack fails later.
\<close>

definition attack_from_json ::
  "hotflip \<Rightarrow> model_env \<Rightarrow> ('j, 'v, 'o, 'f::linorder) predictor \<Rightarrow> 'j \<Rightarrow> string list option \<Rightarrow>
   hotflip \<times> (error + 'o attack_result)" where
  "attack_from_json self M P inputs ignore_tokens =
     (case initialize_if_needed self M of
        Inl e \<Rightarrow> (self, Inl e)
      | Inr self' \<Rightarrow>
          (self',
           let ignore = (case ignore_tokens of None \<Rightarrow> default_ignore_tokens | Some l \<Rightarrow> l)
           in case json_to_labeled_instances P inputs of
                Inl e \<Rightarrow> Inl e
              | Inr original_instances \<Rightarrow>
                  attack_all self' P Untargeted ignore inputs original_instances))"

text \<open>\<open>targeted_attack_from_json\<close>.\<close>

definition targeted_attack_from_json ::
  "hotflip \<Rightarrow> model_env \<Rightarrow> ('j, 'v, 'o, 'f::linorder) predictor \<Rightarrow> 'j \<Rightarrow> string list option \<Rightarrow>
   string option \<Rightarrow> string option \<Rightarrow> hotflip \<times> (error + 'o attack_result)" where
  "targeted_attack_from_json self M P inputs ignore_tokens target target_word =
     (case initialize_if_needed self M of
        Inl e \<Rightarrow> (self, Inl e)
      | Inr self' \<Rightarrow>
          (self',
           case target of
             None \<Rightarrow> Inl (ValueError ''set the target'')
           | Some tgt \<Rightarrow>
               let ignore = (case ignore_tokens of None \<Rightarrow> default_ignore_tokens | Some l \<Rightarrow> l)
               in case json_to_instance P inputs of
                    Inl e \<Rightarrow> Inl e
                  | Inr inst \<Rightarrow>
                case label_with_target P inst tgt of
                    Inl e \<Rightarrow> Inl e
                  | Inr original_instances \<Rightarrow>
                      attack_all self' P (Targeted target_word) ignore inputs
                        original_instances))"

text \<open>
  How a later state of one loop relates to an earlier one, \<open>n\<close> completed passes on: the
  positions flipped since are \<open>n\<close> new ones, all inside the sequence, and only their
  tokens can have changed.
\<close>

definition extends :: "('v, 'o) attack_state \<Rightarrow> nat \<Rightarrow> ('v, 'o) attack_state \<Rightarrow> bool" where
  "extends s n s' \<longleftrightarrow>
     (\<exists>new. flipped s' = flipped s @ new \<and> length new = n \<and> distinct new \<and>
        set new \<inter> set (flipped s) = {} \<and>
        (\<forall>k\<in>set new. k < length (tokens (current_instance s))) \<and>
        length (tokens (current_instance s')) = length (tokens (current_instance s)) \<and>
        (\<forall>i. i \<notin> set new \<longrightarrow>
           tokens (current_instance s') ! i = tokens (current_instance s) ! i))"

subsection \<open>A concrete attacker and predictor\<close>

text \<open>
  A vocabulary of four tokens with a two-dimensional embedding, and a toy sentiment
  model: the label is \<open>pos\<close> exactly when the token \<open>good\<close> occurs, and the other
  entries of its outputs repeat the tokens it was run on. The definitions above are run
  on it below.
\<close>

definition V0 :: "string list" where
  "V0 = [''@@PADDING@@'', ''good'', ''bad'', ''.'']"

definition E0 :: matrix where
  "E0 = [[0, 0], [1, 0], [2, 1], [3, 1]]"

definition A0 :: hotflip where
  "A0 = (Hotflip_init ascii_alnum V0)
          \<lparr> token_embedding :=
              Some \<lparr> num_embeddings = 4, embedding_dim = 2, weight = E0, trainable = False \<rparr> \<rparr>"

definition token_id0 :: "string \<Rightarrow> nat" where
  "token_id0 t = (if t = ''good'' then 1 else if t = ''bad'' then 2 else if t = ''.'' then 3 else 0)"

definition grad0 :: "string \<Rightarrow> vec" where
  "grad0 t = (if t = ''good'' then [2, 0] else if t = ''bad'' then [0, 1] else [0, 0])"

definition label0 :: "string list \<Rightarrow> string" where
  "label0 ts = (if ''good'' \<in> set ts then ''pos'' else ''neg'')"

definition P0 :: "(string list, string, string list, float32) predictor" where
  "P0 = \<lparr> json_to_labeled_instances =
            (\<lambda>j. Inr [\<lparr> tokens = j, labels = [(''label'', label0 j)] \<rparr>]),
          json_to_instance = (\<lambda>j. Inr \<lparr> tokens = j, labels = [] \<rparr>),
          label_with_target = (\<lambda>inst tgt. Inr [inst\<lparr> labels := [(''label'', tgt)] \<rparr>]),
          predictions_to_labeled_instances =
            (\<lambda>inst outs. Inr [inst\<lparr> labels := [(''label'', label0 (tokens inst))] \<rparr>]),
          get_gradients =
            (\<lambda>inst. Inr (map grad0 (tokens inst), \<lparr> clusters = None, rest = tokens inst \<rparr>)),
          index_tokens = map token_id0,
          unbatch = Inr,
          get_fields_to_compare = (\<lambda>j inst. labels inst),
          arith = float32_arith \<rparr>"

definition s0 :: "(string, string list) attack_state" where
  "s0 = \<lparr> current_instance = \<lparr> tokens = [''good'', ''.''], labels = [(''label'', ''pos'')] \<rparr>,
          flipped = [1], grads = [[2, 0], [0, 0]],
          outputs = \<lparr> clusters = None, rest = [''good'', ''.''] \<rparr> \<rparr>"

definition M0 :: model_env where
  "M0 = \<lparr> token_indexers = [OtherIndexer],
          the_embedding_layer = \<lparr> lookup_table = Some E0, forward = (\<lambda>inp. Inl RuntimeError) \<rparr> \<rparr>"

definition s1 :: "(string, string list) attack_state" where
  "s1 = \<lparr> current_instance = \<lparr> tokens = [''bad'', ''.''], labels = [(''label'', ''pos'')] \<rparr>,
          flipped = [1, 0], grads = [[0, 1], [0, 0]],
          outputs = \<lparr> clusters = None, rest = [''bad'', ''.''] \<rparr> \<rparr>"

definition t0 :: "string Instance" where
  "t0 = \<lparr> tokens = [''bad'', ''.'', ''bad''], labels = [(''label'', ''pos'')] \<rparr>"

definition t1 :: "(string, string list) attack_state" where
  "t1 = \<lparr> current_instance = \<lparr> tokens = [''good'', ''.'', ''bad''], labels = [(''label'', ''pos'')] \<rparr>,
          flipped = [1, 0], grads = [[2, 0], [0, 0], [0, 1]],
          outputs = \<lparr> clusters = None, rest = [''good'', ''.'', ''bad''] \<rparr> \<rparr>"

text \<open>
  Further settings: a model whose embedding stage fails, one whose embedding stage is a
  forward pass over character-level and ELMo inputs, a predictor whose outputs always
  hold the one cluster \<open>[(0, 0)]\<close>, and one whose input yields two instances.
\<close>

definition M_fail :: model_env where
  "M_fail = \<lparr> token_indexers = [OtherIndexer],
              the_embedding_layer =
                \<lparr> lookup_table = None,
                  forward = (\<lambda>inp. Inl (ExternalError ''out of memory'')) \<rparr> \<rparr>"

definition M_fwd :: model_env where
  "M_fwd = \<lparr> token_indexers =
               [TokenCharactersIndexer (\<lambda>ts n. map (\<lambda>t. replicate n 0) ts),
                ELMoTokenCharactersIndexer (\<lambda>t. [[length t]])],
             the_embedding_layer =
               \<lparr> lookup_table = None,
                 forward = (\<lambda>inp. Inr (map (\<lambda>i. [of_nat i, 1]) (tokens_input inp))) \<rparr> \<rparr>"

definition Pc :: "(string list, string, string list, float32) predictor" where
  "Pc = P0 \<lparr> get_gradients :=
              (\<lambda>inst. Inr (map grad0 (tokens inst),
                            \<lparr> clusters = Some [[(0, 0)]], rest = tokens inst \<rparr>)) \<rparr>"

definition c0 :: "(string, string list) attack_state" where
  "c0 = \<lparr> current_instance = \<lparr> tokens = [''good'', ''bad''], labels = [] \<rparr>,
          flipped = [], grads = [[2, 0], [0, 1]],
          outputs = \<lparr> clusters = Some [[(0, 0)]], rest = [''good'', ''bad''] \<rparr> \<rparr>"

definition c1 :: "(string, string list) attack_state" where
  "c1 = \<lparr> current_instance = \<lparr> tokens = [''good'', ''bad''], labels = [] \<rparr>,
          flipped = [1], grads = [[2, 0], [0, 1]],
          outputs = \<lparr> clusters = Some [[(0, 0)]], rest = [''good'', ''bad''] \<rparr> \<rparr>"

definition P2 :: "(string list, string, string list, float32) predictor" where
  "P2 = P0 \<lparr> json_to_labeled_instances :=
              (\<lambda>j. Inr [\<lparr> tokens = j, labels = [(''label'', label0 j)] \<rparr>,
                        \<lparr> tokens = rev j, labels = [(''label'', ''neg'')] \<rparr>]) \<rparr>"

definition c2 :: "(string, string list) attack_state" where
  "c2 = \<lparr> current_instance = \<lparr> tokens = [''good'', ''good''], labels = [] \<rparr>,
          flipped = [1], grads = [[2, 0], [2, 0]],
          outputs = \<lparr> clusters = Some [[(0, 0)]], rest = [''good'', ''good''] \<rparr> \<rparr>"

section \<open>Properties\<close>

subsection \<open>The candidate selector\<close>

lemma first_order_taylor_Inr:
  assumes "first_order_taylor ar invalid g E t s = Inr k"
  shows "t < length E" and "list_all (\<lambda>row. length row = length g) E"
    and "list_all (\<lambda>i. i < length E) invalid"
    and "argmax (map (computed_score ar invalid g E t s) [0..<length E]) = Inr k"
proof -
  from assms show t: "t < length E"
    by (auto simp: first_order_taylor_def split: if_splits)
  from assms show w: "list_all (\<lambda>row. length row = length g) E"
    by (auto simp: first_order_taylor_def split: if_splits)
  from assms t w show i: "list_all (\<lambda>i. i < length E) invalid"
    by (auto simp: first_order_taylor_def Let_def split: if_splits)
  have eq: "fold (\<lambda>i ds. ds[i := f_neg_inf ar]) invalid
          (map (\<lambda>n. f_mul ar s (f_sub ar (f_einsum_bi ar g (E ! t)) n))
             (map (f_einsum_bik ar g E) [0..<length E])) =
        map (computed_score ar invalid g E t s) [0..<length E]"
    by (rule nth_equalityI) (auto simp: fold_mask_length fold_mask_nth computed_score_def)
  from assms t w i have "argmax (fold (\<lambda>i ds. ds[i := f_neg_inf ar]) invalid
          (map (\<lambda>n. f_mul ar s (f_sub ar (f_einsum_bi ar g (E ! t)) n))
             (map (f_einsum_bik ar g E) [0..<length E]))) = Inr k"
    by (simp add: first_order_taylor_def Let_def del: map_map)
  then show "argmax (map (computed_score ar invalid g E t s) [0..<length E]) = Inr k"
    by (simp only: eq)
qed

lemma first_order_taylor_argmax:
  assumes "first_order_taylor ar invalid g E t s = Inr k"
  shows "k < length E \<and>
    (\<forall>j<length E. computed_score ar invalid g E t s j \<le> computed_score ar invalid g E t s k) \<and>
    (\<forall>j<k. computed_score ar invalid g E t s j < computed_score ar invalid g E t s k)"
  using argmax_first_max[OF first_order_taylor_Inr(4)[OF assms]] by auto

lemma first_order_taylor_returns:
  assumes "t < length E" "list_all (\<lambda>row. length row = length g) E"
    "list_all (\<lambda>i. i < length E) invalid"
  shows "\<exists>k. first_order_taylor ar invalid g E t s = Inr k"
proof -
  have "fold (\<lambda>i ds. ds[i := f_neg_inf ar]) invalid
          (map (\<lambda>n. f_mul ar s (f_sub ar (f_einsum_bi ar g (E ! t)) n))
             (map (f_einsum_bik ar g E) [0..<length E])) \<noteq> []"
    using assms(1) by (auto simp: fold_mask_length dest!: arg_cong[where f = length])
  from argmax_nonempty[OF this] assms show ?thesis
    by (simp add: first_order_taylor_def Let_def del: map_map)
qed

lemma computed_score_exact:
  "computed_score exact_arith invalid g E t s k = taylor_score invalid g E t s k"
  by (simp add: computed_score_def taylor_score_def exact_arith_def)

lemma invalid_replacement_indices_init:
  "i \<in> set (invalid_replacement_indices (Hotflip_init alnum v)) \<longleftrightarrow>
   i < length v \<and> \<not> isalnum alnum (v ! i)"
  by (auto simp: Hotflip_init_def)

lemma flip_token_selector:
  assumes "flip_token self P sg s k = Inr (s', lab)"
  shows "\<exists>emb new_id. token_embedding self = Some emb \<and>
           first_order_taylor (arith P) (invalid_replacement_indices self) (grads s ! k)
             (weight emb) (index_tokens P (tokens (current_instance s)) ! k) sg = Inr new_id \<and>
           tokens (current_instance s') =
             (tokens (current_instance s))[k := vocab self ! new_id]"
  using assms
  by (auto simp: flip_token_def item_def Let_def
           split: sum.splits option.splits if_splits list.splits)

lemma select_position_s0:
  "select_position float32_arith (flipped s0) (clusters (outputs s0)) (grads s0) = Inr (Some 0)"
  by code_simp

lemma first_order_taylor_E0: "first_order_taylor float32_arith [0, 3] [2, 0] E0 1 (- 1) = Inr 2"
  by code_simp

lemma attack_step_s0:
  "attack_step A0 P0 Untargeted [(''label'', ''pos'')] None s0 =
     Inr (Stopped
       \<lparr> current_instance = \<lparr> tokens = [''bad'', ''.''], labels = [(''label'', ''pos'')] \<rparr>,
         flipped = [1, 0], grads = [[0, 1], [0, 0]],
         outputs = \<lparr> clusters = None, rest = [''bad'', ''.''] \<rparr> \<rparr>)"
  by code_simp

subsection \<open>The mask over the passes of the loop\<close>

lemma flip_token_tokens:
  assumes "flip_token self P sg s k = Inr (s', lab)"
  shows "\<exists>tok. tokens (current_instance s') = (tokens (current_instance s))[k := tok]"
  using flip_token_selector[OF assms] by blast

lemma attack_step_tokens:
  assumes "attack_step self P m ftc oo s = Inr r" and "r = Stopped s' \<or> r = Running s'"
  shows "\<exists>k tok. flipped s' = flipped s @ [k] \<and>
           tokens (current_instance s') = (tokens (current_instance s))[k := tok]"
proof -
  from assms obtain k lab where
    fl: "flip_token self P (sign_of m) s k = Inr (s', lab)"
    by (auto simp: attack_step_def split: sum.splits option.splits bool.splits prod.splits)
  from flip_token_Inr(1)[OF fl] flip_token_tokens[OF fl] show ?thesis by blast
qed

lemma extends_refl: "extends s 0 s"
  by (simp add: extends_def)

lemma extends_step:
  assumes st: "attack_step self P m ftc oo s = Inr r" and r: "r = Stopped s' \<or> r = Running s'"
  shows "extends s 1 s'"
proof -
  from attack_step_flip[OF st r] obtain k where
    k: "flipped s' = flipped s @ [k]" "k \<notin> set (flipped s)"
       "k < length (tokens (current_instance s))"
       "length (tokens (current_instance s')) = length (tokens (current_instance s))"
    by auto
  from attack_step_tokens[OF st r] k(1) obtain tok where
    t: "tokens (current_instance s') = (tokens (current_instance s))[k := tok]" by auto
  show ?thesis unfolding extends_def
    by (rule exI[of _ "[k]"]) (use k t in auto)
qed

lemma extends_trans:
  assumes "extends s 1 s'" and "extends s' n s''"
  shows "extends s (Suc n) s''"
proof -
  from assms(1) obtain k where
    k: "flipped s' = flipped s @ [k]" "k \<notin> set (flipped s)"
       "k < length (tokens (current_instance s))"
       "length (tokens (current_instance s')) = length (tokens (current_instance s))"
       "\<forall>i. i \<noteq> k \<longrightarrow> tokens (current_instance s') ! i = tokens (current_instance s) ! i"
    unfolding extends_def by (auto simp: length_Suc_conv)
  from assms(2) obtain new where
    n: "flipped s'' = flipped s' @ new" "length new = n" "distinct new"
       "set new \<inter> set (flipped s') = {}"
       "\<forall>j\<in>set new. j < length (tokens (current_instance s'))"
       "length (tokens (current_instance s'')) = length (tokens (current_instance s'))"
       "\<forall>i. i \<notin> set new \<longrightarrow> tokens (current_instance s'') ! i = tokens (current_instance s') ! i"
    unfolding extends_def by auto
  show ?thesis unfolding extends_def
    by (rule exI[of _ "k # new"]) (use k n in auto)
qed

lemma attack_loop_extends:
  "attack_loop self P m ftc oo s = (n, Inr s') \<Longrightarrow> extends s n s'"
proof (induction self P m ftc oo s arbitrary: n s' rule: attack_loop.induct)
  case (1 self P m ftc oo s)
  show ?case
  proof (cases "attack_step self P m ftc oo s")
    case (Inl e)
    with "1.prems" show ?thesis by (simp add: attack_loop.simps[of self P m ftc oo s])
  next
    case (Inr r)
    show ?thesis
    proof (cases r)
      case (Exhausted t)
      with Inr attack_step_Exhausted[of self P m ftc oo s t] "1.prems"
      show ?thesis by (simp add: attack_loop.simps[of self P m ftc oo s] extends_refl)
    next
      case (Stopped t)
      with Inr "1.prems" have "n = 1" "s' = t"
        by (simp_all add: attack_loop.simps[of self P m ftc oo s])
      with extends_step[OF Inr] Stopped show ?thesis by simp
    next
      case (Running t)
      with Inr "1.prems" obtain n' where
        n': "attack_loop self P m ftc oo t = (n', Inr s')" "n = Suc n'"
        by (auto simp: attack_loop.simps[of self P m ftc oo s] split: prod.splits)
      from "1.IH"[OF Inr Running n'(1)] have "extends t n' s'" .
      with extends_step[OF Inr, of t] Running n'(2) show ?thesis
        by (auto intro: extends_trans)
    qed
  qed
qed

lemma attack_loop_count:
  "fst (attack_loop self P m ftc oo s) \<le> unflipped s"
proof (induction self P m ftc oo s rule: attack_loop.induct)
  case (1 self P m ftc oo s)
  show ?case
  proof (cases "attack_step self P m ftc oo s")
    case (Inl e)
    then show ?thesis by (simp add: attack_loop.simps[of self P m ftc oo s])
  next
    case (Inr r)
    show ?thesis
    proof (cases r)
      case (Exhausted t)
      with Inr show ?thesis by (simp add: attack_loop.simps[of self P m ftc oo s])
    next
      case (Stopped t)
      from attack_step_flip[OF Inr, of t] Stopped obtain k where
        "k \<notin> set (flipped s)" "k < length (tokens (current_instance s))" by auto
      then have "k \<in> {..<length (tokens (current_instance s))} - set (flipped s)" by simp
      then have "0 < unflipped s" unfolding unflipped_def
        by (metis card_gt_0_iff empty_iff finite_Diff finite_lessThan)
      with Inr Stopped show ?thesis by (simp add: attack_loop.simps[of self P m ftc oo s])
    next
      case (Running t)
      from "1.IH"[OF Inr Running] have "fst (attack_loop self P m ftc oo t) \<le> unflipped t" .
      moreover from attack_step_Running_decreases[of self P m ftc oo s t] Inr Running
      have "unflipped t < unflipped s" by simp
      ultimately show ?thesis using Inr Running
        by (auto simp: attack_loop.simps[of self P m ftc oo s] split: prod.splits)
    qed
  qed
qed

lemma unflipped_le: "unflipped s \<le> length (tokens (current_instance s))"
  unfolding unflipped_def
  by (metis card_lessThan card_mono finite_lessThan Diff_subset)

lemma select_position_exhausted:
  assumes ne: "grad \<noteq> []"
    and fl: "\<forall>i\<in>set fl. i < length grad"
    and cl: "\<forall>c. cs = Some c \<longrightarrow> (\<forall>i\<in>set (mention_indices c). i < length grad)"
    and cover: "\<forall>j<length grad. j \<in> set fl \<or> (\<exists>c. cs = Some c \<and> j \<in> set (mention_indices c))"
  shows "select_position ar fl cs grad = Inr None"
proof -
  from set_each_ok[of fl "map (f_sqnorm ar) grad" "f_minus_one ar"] fl obtain gm1 where
    g1: "set_each (f_minus_one ar) fl (map (f_sqnorm ar) grad) = Inr gm1" by auto
  from set_each_Inr[OF g1] have l1: "length gm1 = length grad" by simp
  have "\<exists>gm. masked_magnitude ar fl cs grad = Inr gm"
  proof (cases cs)
    case None
    with g1 show ?thesis by (simp add: masked_magnitude_def)
  next
    case (Some c)
    with cl l1 have "\<forall>i\<in>set (mention_indices c). i < length gm1" by simp
    from set_each_ok[OF this, of "f_minus_one ar"] g1 Some show ?thesis
      by (auto simp: masked_magnitude_def)
  qed
  then obtain gm where gm: "masked_magnitude ar fl cs grad = Inr gm" ..
  from masked_magnitude_Inr[OF gm] cover have len: "length gm = length grad"
    and all: "\<forall>j<length grad. gm ! j = f_minus_one ar" by auto
  from len ne have "gm \<noteq> []" by auto
  from argmax_nonempty[OF this] obtain k where k: "argmax gm = Inr k" ..
  from argmax_first_max[OF k] len all have "gm ! k = f_minus_one ar" by auto
  with gm k show ?thesis by (simp add: select_position_def)
qed

lemma initial_flipped_distinct: "distinct (initial_flipped m ign toks)"
  by (cases "(m, ign, toks)" rule: initial_flipped.cases) auto

lemma initial_flipped_targeted:
  "i \<in> set (initial_flipped (Targeted (Some w)) ign toks) \<longleftrightarrow> i < length toks \<and> toks ! i \<noteq> w"
  by auto

lemma initial_flipped_ignore:
  "m = Untargeted \<or> m = Targeted None \<Longrightarrow>
   i \<in> set (initial_flipped m ign toks) \<longleftrightarrow> i < length toks \<and> toks ! i \<in> set ign"
  by auto

lemma attack_instance_Inr:
  assumes "attack_instance self P m ign inputs oo inst = Inr (s', oo')"
  shows "\<exists>g outs n. 
     attack_loop self P m (get_fields_to_compare P inputs inst) oo'
       \<lparr> current_instance = inst, flipped = initial_flipped m ign (tokens inst),
         grads = g, outputs = outs \<rparr> = (n, Inr s')"
  using assms
  by (auto simp: attack_instance_def Let_def split: sum.splits prod.splits option.splits)
     (metis prod.collapse)+

lemma attack_step_s1: "attack_step A0 P0 Untargeted [(''label'', ''pos'')] None s1 = Inr (Exhausted s1)"
  by code_simp

lemma attack_loop_s0: "attack_loop A0 P0 Untargeted [(''label'', ''pos'')] None s0 = (1, Inr s1)"
  by code_simp

lemma attack_instance_s0:
  "attack_instance A0 P0 Untargeted default_ignore_tokens [''good'', ''.''] None
     (current_instance s0) = Inr (s1, None)"
  by code_simp

text \<open>
  C4. In either attack, a pass that flips a token (whether the loop then stops or goes
  on) appends exactly one position to \<open>flipped\<close>; that position was not in \<open>flipped\<close>
  before, so it is neither one masked as ignored at the start nor one flipped earlier,
  and it is covered by no mention of the clusters in the current outputs. A pass that
  finds no eligible position changes nothing. Over a whole loop of \<open>n\<close> completed passes
  \<open>flipped\<close> grows by \<open>n\<close> distinct new positions and keeps its old ones, and at the end
  of the attack on an instance \<open>flipped\<close> has no position twice.
\<close>

theorem flipped_grows_by_one:
  "(attack_step self P m ftc oo s = Inr r \<and> (r = Stopped s' \<or> r = Running s') \<longrightarrow>
      (\<exists>k. flipped s' = flipped s @ [k] \<and> k \<notin> set (flipped s) \<and>
           k < length (tokens (current_instance s)) \<and>
           (\<forall>cl. clusters (outputs s) = Some cl \<longrightarrow> k \<notin> set (mention_indices cl)))) \<and>
   (attack_step self P m ftc oo s = Inr (Exhausted s') \<longrightarrow> s' = s) \<and>
   (attack_loop self P m ftc oo s = (n, Inr s') \<longrightarrow>
      (\<exists>new. flipped s' = flipped s @ new \<and> length new = n \<and> distinct new \<and>
         set new \<inter> set (flipped s) = {})) \<and>
   (attack_instance self P m ign inputs oo inst = Inr (s', oo') \<longrightarrow>
      distinct (flipped s') \<and>
      (\<exists>new. flipped s' = initial_flipped m ign (tokens inst) @ new \<and>
         set new \<inter> set (initial_flipped m ign (tokens inst)) = {}))"
proof (intro conjI impI)
  assume "attack_step self P m ftc oo s = Inr r \<and> (r = Stopped s' \<or> r = Running s')"
  then have "attack_step self P m ftc oo s = Inr r" "r = Stopped s' \<or> r = Running s'" by auto
  from attack_step_flip[OF this]
  show "\<exists>k. flipped s' = flipped s @ [k] \<and> k \<notin> set (flipped s) \<and>
           k < length (tokens (current_instance s)) \<and>
           (\<forall>cl. clusters (outputs s) = Some cl \<longrightarrow> k \<notin> set (mention_indices cl))"
    by blast
next
  assume "attack_step self P m ftc oo s = Inr (Exhausted s')"
  then show "s' = s" by (rule attack_step_Exhausted)
next
  assume "attack_loop self P m ftc oo s = (n, Inr s')"
  from attack_loop_extends[OF this]
  show "\<exists>new. flipped s' = flipped s @ new \<and> length new = n \<and> distinct new \<and>
         set new \<inter> set (flipped s) = {}"
    unfolding extends_def by blast
next
  assume a: "attack_instance self P m ign inputs oo inst = Inr (s', oo')"
  from attack_instance_Inr[OF a] obtain g outs n where
    "attack_loop self P m (get_fields_to_compare P inputs inst) oo'
       \<lparr> current_instance = inst, flipped = initial_flipped m ign (tokens inst),
         grads = g, outputs = outs \<rparr> = (n, Inr s')" by blast
  from attack_loop_extends[OF this] obtain new where
    new: "flipped s' = initial_flipped m ign (tokens inst) @ new" "distinct new"
      "set new \<inter> set (initial_flipped m ign (tokens inst)) = {}"
    unfolding extends_def by auto
  with initial_flipped_distinct[of m ign "tokens inst"]
  show "distinct (flipped s')" by auto
  from new show "\<exists>new. flipped s' = initial_flipped m ign (tokens inst) @ new \<and>
         set new \<inter> set (initial_flipped m ign (tokens inst)) = {}" by blast
qed

theorem flipped_grows_by_one_witness:
  "attack_step A0 P0 Untargeted [(''label'', ''pos'')] None s0 = Inr (Stopped s1) \<and>
   flipped s1 = flipped s0 @ [0] \<and> 0 \<notin> set (flipped s0) \<and>
   attack_step A0 P0 Untargeted [(''label'', ''pos'')] None s1 = Inr (Exhausted s1) \<and>
   attack_loop A0 P0 Untargeted [(''label'', ''pos'')] None s0 = (1, Inr s1) \<and>
   attack_instance A0 P0 Untargeted default_ignore_tokens [''good'', ''.''] None
     (current_instance s0) = Inr (s1, None) \<and>
   distinct (flipped s1) \<and>
   (\<exists>new. flipped s1 =
      initial_flipped Untargeted default_ignore_tokens (tokens (current_instance s0)) @ new)"
proof -
  have st: "attack_step A0 P0 Untargeted [(''label'', ''pos'')] None s0 = Inr (Stopped s1)"
    using attack_step_s0 by (simp add: s1_def)
  note th = flipped_grows_by_one[where self = A0 and P = P0 and m = Untargeted
      and ftc = "[(''label'', ''pos'')]" and oo = None and s = s0 and r = "Stopped s1"
      and s' = s1 and n = 1 and ign = default_ignore_tokens and inputs = "[''good'', ''.'']"
      and inst = "current_instance s0" and oo' = None]
  note th2 = flipped_grows_by_one[where self = A0 and P = P0 and m = Untargeted
      and ftc = "[(''label'', ''pos'')]" and oo = None and s = s1 and s' = s1]
  have f: "flipped s1 = flipped s0 @ [0]" "0 \<notin> set (flipped s0)"
    by (simp_all add: s1_def s0_def)
  from th th2 st attack_loop_s0 attack_instance_s0 attack_step_s1 f
  show ?thesis by blast
qed

subsection \<open>Termination and the bound on the passes\<close>

text \<open>
  C5, as stated, fails in its last part: on an empty token sequence no position is
  eligible, yet \<open>numpy.argmax\<close> of the empty list of magnitudes raises a \<open>ValueError\<close>,
  in the loop itself and so in the whole attack.
\<close>

theorem loop_exits_without_error_counterexample:
  "initial_flipped Untargeted default_ignore_tokens [] = [] \<and>
   attack_loop A0 P0 Untargeted [] None
     \<lparr> current_instance = \<lparr> tokens = [], labels = [] \<rparr>, flipped = [], grads = [],
       outputs = \<lparr> clusters = None, rest = [] \<rparr> \<rparr> =
     (0, Inl (ValueError ''attempt to get argmax of an empty sequence'')) \<and>
   attack_from_json A0 M0 P0 [] None =
     (A0, Inl (ValueError ''attempt to get argmax of an empty sequence''))"
  by code_simp

text \<open>
  C5, amended. \<open>attack_loop\<close> is a total function: its termination proof (every pass
  that goes on lowers \<open>unflipped\<close>) is the proof that the loop halts, whatever the model
  returns. The number of completed passes (those that flip a token) is at most the length
  of the token sequence, each adding one position to \<open>flipped\<close>, after which one more pass
  may find no eligible position and leave. Where no position is eligible, the sequence is
  not empty, the gradient has one vector per position and all masked positions lie inside
  the sequence, the loop exits at once, without error and with the state unchanged.
\<close>

theorem loop_halts_within_length:
  "fst (attack_loop self P m ftc oo s) \<le> length (tokens (current_instance s)) \<and>
   (attack_loop self P m ftc oo s = (n, Inr s') \<longrightarrow>
      length (flipped s') = length (flipped s) + n \<and>
      length (tokens (current_instance s')) = length (tokens (current_instance s))) \<and>
   (tokens (current_instance s) \<noteq> [] \<and>
    length (grads s) = length (tokens (current_instance s)) \<and>
    (\<forall>i\<in>set (flipped s). i < length (tokens (current_instance s))) \<and>
    (\<forall>c. clusters (outputs s) = Some c \<longrightarrow>
       (\<forall>i\<in>set (mention_indices c). i < length (tokens (current_instance s)))) \<and>
    (\<forall>j<length (tokens (current_instance s)).
       j \<in> set (flipped s) \<or>
       (\<exists>c. clusters (outputs s) = Some c \<and> j \<in> set (mention_indices c))) \<longrightarrow>
    attack_loop self P m ftc oo s = (0, Inr s))"
proof (intro conjI impI)
  from attack_loop_count[of self P m ftc oo s] unflipped_le[of s]
  show "fst (attack_loop self P m ftc oo s) \<le> length (tokens (current_instance s))"
    by (rule order_trans)
next
  assume "attack_loop self P m ftc oo s = (n, Inr s')"
  from attack_loop_extends[OF this]
  show "length (flipped s') = length (flipped s) + n"
    and "length (tokens (current_instance s')) = length (tokens (current_instance s))"
    unfolding extends_def by auto
next
  assume a: "tokens (current_instance s) \<noteq> [] \<and>
    length (grads s) = length (tokens (current_instance s)) \<and>
    (\<forall>i\<in>set (flipped s). i < length (tokens (current_instance s))) \<and>
    (\<forall>c. clusters (outputs s) = Some c \<longrightarrow>
       (\<forall>i\<in>set (mention_indices c). i < length (tokens (current_instance s)))) \<and>
    (\<forall>j<length (tokens (current_instance s)).
       j \<in> set (flipped s) \<or>
       (\<exists>c. clusters (outputs s) = Some c \<and> j \<in> set (mention_indices c)))"
  then have "grads s \<noteq> []" by auto
  moreover from a have "\<forall>i\<in>set (flipped s). i < length (grads s)" by simp
  moreover from a have "\<forall>c. clusters (outputs s) = Some c \<longrightarrow>
       (\<forall>i\<in>set (mention_indices c). i < length (grads s))" by simp
  moreover from a have "\<forall>j<length (grads s). j \<in> set (flipped s) \<or>
       (\<exists>c. clusters (outputs s) = Some c \<and> j \<in> set (mention_indices c))" by simp
  ultimately have "select_position (arith P) (flipped s) (clusters (outputs s)) (grads s) =
      Inr None"
    by (rule select_position_exhausted)
  then have "attack_step self P m ftc oo s = Inr (Exhausted s)"
    by (simp add: attack_step_def)
  then show "attack_loop self P m ftc oo s = (0, Inr s)"
    by (simp add: attack_loop.simps[of self P m ftc oo s])
qed

theorem loop_halts_within_length_witness:
  "fst (attack_loop A0 P0 Untargeted [(''label'', ''pos'')] None s0) \<le> 2 \<and>
   attack_loop A0 P0 Untargeted [(''label'', ''pos'')] None s0 = (1, Inr s1) \<and>
   length (flipped s1) = length (flipped s0) + 1 \<and>
   tokens (current_instance s1) \<noteq> [] \<and>
   length (grads s1) = length (tokens (current_instance s1)) \<and>
   attack_loop A0 P0 Untargeted [(''label'', ''pos'')] None s1 = (0, Inr s1)"
proof -
  note th = loop_halts_within_length[where self = A0 and P = P0 and m = Untargeted
      and ftc = "[(''label'', ''pos'')]" and oo = None and s = s0 and n = 1 and s' = s1]
  note th2 = loop_halts_within_length[where self = A0 and P = P0 and m = Untargeted
      and ftc = "[(''label'', ''pos'')]" and oo = None and s = s1]
  have l0: "length (tokens (current_instance s0)) = 2" by (simp add: s0_def)
  have h: "tokens (current_instance s1) \<noteq> []"
    "length (grads s1) = length (tokens (current_instance s1))"
    "\<forall>i\<in>set (flipped s1). i < length (tokens (current_instance s1))"
    "\<forall>c. clusters (outputs s1) = Some c \<longrightarrow>
       (\<forall>i\<in>set (mention_indices c). i < length (tokens (current_instance s1)))"
    "\<forall>j<length (tokens (current_instance s1)).
       j \<in> set (flipped s1) \<or>
       (\<exists>c. clusters (outputs s1) = Some c \<and> j \<in> set (mention_indices c))"
    by (auto simp: s1_def)
  from th2 h have e: "attack_loop A0 P0 Untargeted [(''label'', ''pos'')] None s1 = (0, Inr s1)"
    by blast
  from th l0 attack_loop_s0 e h(1,2) show ?thesis by auto
qed

subsection \<open>The embedding matrix\<close>

lemma initialize_if_needed_built:
  "token_embedding self = Some emb \<Longrightarrow> initialize_if_needed self M = Inr self"
  by (simp add: initialize_if_needed_def)

lemma Embedding_Inr:
  "Embedding n d w t = Inr emb \<Longrightarrow>
   num_embeddings emb = n \<and> embedding_dim emb = d \<and> weight emb = w \<and> trainable emb = t \<and>
   length w = n"
  by (auto simp: Embedding_def split: if_splits)

lemma construct_embedding_matrix_Inr:
  assumes "construct_embedding_matrix self M = Inr emb"
  shows "num_embeddings emb = length (vocab self) \<and> length (weight emb) = length (vocab self) \<and>
    \<not> trainable emb \<and>
    (\<forall>w. lookup_table (the_embedding_layer M) = Some w \<longrightarrow> weight emb = w)"
proof -
  from assms obtain w where
    e: "Embedding (length (vocab self)) (ncols w) w False = Inr emb" and
    w: "\<forall>w'. lookup_table (the_embedding_layer M) = Some w' \<longrightarrow> w = w'"
    by (auto simp: construct_embedding_matrix_def Let_def split: sum.splits option.splits)
  from Embedding_Inr[OF e] w show ?thesis by auto
qed

lemma construct_embedding_matrix_lookup:
  assumes "lookup_table (the_embedding_layer M) = Some w"
  shows "construct_embedding_matrix self
           (M\<lparr> the_embedding_layer := (the_embedding_layer M)\<lparr> forward := f \<rparr> \<rparr>) =
         construct_embedding_matrix self M"
  using assms by (auto simp: construct_embedding_matrix_def Let_def split: sum.splits)

lemma attack_from_json_built:
  "token_embedding self = Some emb \<Longrightarrow> fst (attack_from_json self M P inputs ign) = self"
  by (simp add: attack_from_json_def initialize_if_needed_built)

lemma targeted_attack_from_json_built:
  "token_embedding self = Some emb \<Longrightarrow>
   fst (targeted_attack_from_json self M P inputs ign tgt tw) = self"
  by (simp add: targeted_attack_from_json_def initialize_if_needed_built)

lemma construct_M0:
  "construct_embedding_matrix (Hotflip_init ascii_alnum V0) M0 =
     Inr \<lparr> num_embeddings = 4, embedding_dim = 2, weight = E0, trainable = False \<rparr>"
  by code_simp

lemma construct_M_fwd:
  "construct_embedding_matrix (Hotflip_init ascii_alnum V0) M_fwd =
     Inr \<lparr> num_embeddings = 4, embedding_dim = 2,
           weight = [[0, 1], [1, 1], [2, 1], [3, 1]], trainable = False \<rparr>"
  by code_simp

lemma initialize_M0: "initialize (Hotflip_init ascii_alnum V0) M0 = Inr A0"
  by code_simp

text \<open>
  C9. For every list of token indexers and every embedding layer, an embedding that
  \<open>_construct_embedding_matrix\<close> returns declares as many rows as the vocabulary of the
  attack namespace has tokens, its weight has that many rows (the wrapper, modelled from
  the spec, admits no other shape), and it is not trainable. Where the layer is a lookup
  table the weight is the table's, and the result does not depend on the layer's forward
  pass: with any other function in its place, also one that fails, the result is the
  same. \<open>initialize\<close> stores that embedding and changes nothing else, and an attack on
  an attacker whose embedding is built returns the attacker as it was.
\<close>

theorem embedding_matrix_rows:
  "(construct_embedding_matrix self M = Inr emb \<longrightarrow>
      num_embeddings emb = length (vocab self) \<and>
      length (weight emb) = length (vocab self) \<and>
      \<not> trainable emb \<and>
      (\<forall>w. lookup_table (the_embedding_layer M) = Some w \<longrightarrow> weight emb = w)) \<and>
   (lookup_table (the_embedding_layer M) = Some w \<longrightarrow>
      construct_embedding_matrix self
        (M\<lparr> the_embedding_layer := (the_embedding_layer M)\<lparr> forward := f \<rparr> \<rparr>) =
      construct_embedding_matrix self M) \<and>
   (initialize self M = Inr self' \<longrightarrow>
      token_embedding self' = Some emb' \<longrightarrow>
      construct_embedding_matrix self M = Inr emb' \<and>
      vocab self' = vocab self \<and>
      invalid_replacement_indices self' = invalid_replacement_indices self) \<and>
   (token_embedding self = Some emb \<longrightarrow>
      fst (attack_from_json self M P inputs ign) = self \<and>
      fst (targeted_attack_from_json self M P inputs ign tgt tw) = self)"
proof (intro conjI impI)
  assume "construct_embedding_matrix self M = Inr emb"
  from construct_embedding_matrix_Inr[OF this]
  show "num_embeddings emb = length (vocab self)"
    and "length (weight emb) = length (vocab self)"
    and "\<not> trainable emb"
    and "\<forall>w. lookup_table (the_embedding_layer M) = Some w \<longrightarrow> weight emb = w"
    by blast+
next
  assume "lookup_table (the_embedding_layer M) = Some w"
  then show "construct_embedding_matrix self
        (M\<lparr> the_embedding_layer := (the_embedding_layer M)\<lparr> forward := f \<rparr> \<rparr>) =
      construct_embedding_matrix self M"
    by (rule construct_embedding_matrix_lookup)
next
  assume a: "initialize self M = Inr self'" and b: "token_embedding self' = Some emb'"
  from a b show "construct_embedding_matrix self M = Inr emb'"
    by (auto simp: initialize_def split: sum.splits)
  from a show "vocab self' = vocab self"
    by (auto simp: initialize_def split: sum.splits)
  from a show "invalid_replacement_indices self' = invalid_replacement_indices self"
    by (auto simp: initialize_def split: sum.splits)
next
  assume "token_embedding self = Some emb"
  then show "fst (attack_from_json self M P inputs ign) = self"
    and "fst (targeted_attack_from_json self M P inputs ign tgt tw) = self"
    by (simp_all add: attack_from_json_built targeted_attack_from_json_built)
qed

theorem embedding_matrix_rows_witness:
  "construct_embedding_matrix (Hotflip_init ascii_alnum V0) M_fwd =
     Inr \<lparr> num_embeddings = 4, embedding_dim = 2,
           weight = [[0, 1], [1, 1], [2, 1], [3, 1]], trainable = False \<rparr> \<and>
   length [[0, 1], [1, 1], [2, 1], [3 :: rat, 1]] = length (vocab (Hotflip_init ascii_alnum V0)) \<and>
   lookup_table (the_embedding_layer M0) = Some E0 \<and>
   construct_embedding_matrix (Hotflip_init ascii_alnum V0)
     (M0\<lparr> the_embedding_layer :=
           (the_embedding_layer M0)\<lparr> forward := forward (the_embedding_layer M_fwd) \<rparr> \<rparr>) =
     Inr \<lparr> num_embeddings = 4, embedding_dim = 2, weight = E0, trainable = False \<rparr> \<and>
   length E0 = length (vocab (Hotflip_init ascii_alnum V0)) \<and>
   initialize (Hotflip_init ascii_alnum V0) M0 = Inr A0 \<and>
   fst (attack_from_json A0 M0 P2 [''good'', ''.''] None) = A0 \<and>
   fst (targeted_attack_from_json A0 M0 P2 [''good'', ''.''] None (Some ''pos'') None) = A0"
proof -
  let ?e = "\<lparr> num_embeddings = 4, embedding_dim = 2, weight = E0, trainable = False \<rparr>"
  let ?ef = "\<lparr> num_embeddings = 4, embedding_dim = 2,
           weight = [[0, 1], [1, 1], [2, 1], [3, 1]], trainable = False \<rparr>"
  note th = embedding_matrix_rows[where self = "Hotflip_init ascii_alnum V0" and M = M0
      and emb = ?e and w = E0 and f = "forward (the_embedding_layer M_fwd)" and self' = A0
      and emb' = ?e and P = P2 and inputs = "[''good'', ''.'']" and ign = None
      and tgt = "Some ''pos''" and tw = None]
  note th1 = embedding_matrix_rows[where self = "Hotflip_init ascii_alnum V0" and M = M_fwd
      and emb = ?ef and w = E0 and f = "forward (the_embedding_layer M_fwd)" and self' = A0
      and emb' = ?e and P = P2 and inputs = "[''good'', ''.'']" and ign = None
      and tgt = "Some ''pos''" and tw = None]
  note th2 = embedding_matrix_rows[where self = A0 and M = M0 and emb = ?e and w = E0
      and f = "forward (the_embedding_layer M_fwd)" and self' = A0
      and emb' = ?e and P = P2 and inputs = "[''good'', ''.'']" and ign = None
      and tgt = "Some ''pos''" and tw = None]
  have lk: "lookup_table (the_embedding_layer M0) = Some E0" by (simp add: M0_def)
  have te: "token_embedding A0 = Some ?e" by (simp add: A0_def)
  from th1 construct_M_fwd
  have "length (weight ?ef) = length (vocab (Hotflip_init ascii_alnum V0))" by blast
  then have a: "length [[0, 1], [1, 1], [2, 1], [3 :: rat, 1]] =
      length (vocab (Hotflip_init ascii_alnum V0))" by simp
  from th lk have "construct_embedding_matrix (Hotflip_init ascii_alnum V0)
     (M0\<lparr> the_embedding_layer :=
           (the_embedding_layer M0)\<lparr> forward := forward (the_embedding_layer M_fwd) \<rparr> \<rparr>) =
     construct_embedding_matrix (Hotflip_init ascii_alnum V0) M0" by blast
  with construct_M0 have b: "construct_embedding_matrix (Hotflip_init ascii_alnum V0)
     (M0\<lparr> the_embedding_layer :=
           (the_embedding_layer M0)\<lparr> forward := forward (the_embedding_layer M_fwd) \<rparr> \<rparr>) =
     Inr ?e" by simp
  from th construct_M0 have "length (weight ?e) = length (vocab (Hotflip_init ascii_alnum V0))"
    by blast
  then have c: "length E0 = length (vocab (Hotflip_init ascii_alnum V0))" by simp
  from th2 te have d: "fst (attack_from_json A0 M0 P2 [''good'', ''.''] None) = A0"
    "fst (targeted_attack_from_json A0 M0 P2 [''good'', ''.''] None (Some ''pos'') None) = A0"
    by blast+
  from construct_M_fwd a lk b c initialize_M0 d show ?thesis by blast
qed

subsection \<open>The targeted attack without a target\<close>

text \<open>
  C8, as stated, fails on an attacker whose embedding is not built yet when the
  construction fails: the construction runs before the test of the target, and its error
  is the one raised, not the \<open>ValueError\<close> of the missing target.
\<close>

theorem targeted_without_target_counterexample:
  "targeted_attack_from_json (Hotflip_init ascii_alnum V0) M_fail P0 [''good'', ''.''] None
     None None =
   (Hotflip_init ascii_alnum V0, Inl (ExternalError ''out of memory''))"
  by code_simp

text \<open>
  C8, amended. Without a target the call always fails, and its outcome is fixed by the
  attacker and the embedding stage alone: it is the same for every predictor and every
  input, so no gradient is computed and no instance is built or changed. The error is the
  \<open>ValueError\<close> of the missing target whenever the embedding is already built or its
  construction succeeds, and the construction's own error otherwise.
\<close>

theorem targeted_without_target:
  "targeted_attack_from_json self M P inputs ign None tw =
     (case initialize_if_needed self M of
        Inl e \<Rightarrow> (self, Inl e)
      | Inr self' \<Rightarrow> (self', Inl (ValueError ''set the target''))) \<and>
   targeted_attack_from_json self M P inputs ign None tw =
     targeted_attack_from_json self M P' inputs' ign' None tw' \<and>
   (\<exists>e. snd (targeted_attack_from_json self M P inputs ign None tw) = Inl e) \<and>
   (token_embedding self = Some emb \<or> initialize self M = Inr built \<longrightarrow>
      snd (targeted_attack_from_json self M P inputs ign None tw) =
        Inl (ValueError ''set the target''))"
proof (intro conjI impI)
  show eq: "targeted_attack_from_json self M P inputs ign None tw =
     (case initialize_if_needed self M of
        Inl e \<Rightarrow> (self, Inl e)
      | Inr self' \<Rightarrow> (self', Inl (ValueError ''set the target'')))"
    by (simp add: targeted_attack_from_json_def split: sum.splits)
  show "targeted_attack_from_json self M P inputs ign None tw =
     targeted_attack_from_json self M P' inputs' ign' None tw'"
    by (simp add: targeted_attack_from_json_def split: sum.splits)
  from eq show "\<exists>e. snd (targeted_attack_from_json self M P inputs ign None tw) = Inl e"
    by (auto split: sum.splits)
  assume "token_embedding self = Some emb \<or> initialize self M = Inr built"
  then have "\<exists>s. initialize_if_needed self M = Inr s"
    by (auto simp: initialize_if_needed_def split: option.splits)
  with eq show "snd (targeted_attack_from_json self M P inputs ign None tw) =
        Inl (ValueError ''set the target'')"
    by auto
qed

theorem targeted_without_target_witness:
  "initialize (Hotflip_init ascii_alnum V0) M0 = Inr A0 \<and>
   snd (targeted_attack_from_json (Hotflip_init ascii_alnum V0) M0 P0 [''good'', ''.''] None
     None None) = Inl (ValueError ''set the target'') \<and>
   snd (targeted_attack_from_json A0 M_fail P0 [''good'', ''.''] None None (Some ''good'')) =
     Inl (ValueError ''set the target'')"
proof -
  let ?e = "\<lparr> num_embeddings = 4, embedding_dim = 2, weight = E0, trainable = False \<rparr>"
  note th = targeted_without_target[where self = "Hotflip_init ascii_alnum V0" and M = M0
      and P = P0 and inputs = "[''good'', ''.'']" and ign = None and tw = None and built = A0
      and emb = ?e and P' = P2 and inputs' = "[]" and ign' = None and tw' = None]
  note th1 = targeted_without_target[where self = A0 and M = M_fail
      and P = P0 and inputs = "[''good'', ''.'']" and ign = None and tw = "Some ''good''"
      and built = A0 and emb = ?e and P' = P2 and inputs' = "[]" and ign' = None
      and tw' = None]
  have te: "token_embedding A0 = Some ?e" by (simp add: A0_def)
  from th initialize_M0 th1 te show ?thesis by blast
qed

subsection \<open>The reported result\<close>

lemma attack_instances_last:
  "attack_instances self P m ign inputs oo fin outs insts = Inr (fin', outs') \<Longrightarrow>
   insts \<noteq> [] \<Longrightarrow>
   \<exists>k s oo_k oo_k'. k < length insts \<and>
     attack_instance self P m ign inputs oo_k (insts ! k) = Inr (s, oo_k') \<and>
     outs' = Some (outputs s) \<and> length fin' = length fin + Suc k \<and>
     last fin' = tokens (current_instance s) \<and>
     (Suc k < length insts \<longrightarrow> clusters (outputs s) \<noteq> None)"
proof (induction insts arbitrary: oo fin outs)
  case Nil
  then show ?case by simp
next
  case (Cons inst later)
  from Cons.prems(1) obtain s oo1 where
    ai: "attack_instance self P m ign inputs oo inst = Inr (s, oo1)"
    by (auto split: sum.splits)
  show ?case
  proof (cases "clusters (outputs s) \<noteq> None \<or> later = []")
    case True
    with Cons.prems(1) ai have r: "fin' = fin @ [tokens (current_instance s)]"
      "outs' = Some (outputs s)"
      by (auto simp: Let_def split: if_splits)
    have "0 < length (inst # later) \<and>
     attack_instance self P m ign inputs oo ((inst # later) ! 0) = Inr (s, oo1) \<and>
     outs' = Some (outputs s) \<and> length fin' = length fin + Suc 0 \<and>
     last fin' = tokens (current_instance s) \<and>
     (Suc 0 < length (inst # later) \<longrightarrow> clusters (outputs s) \<noteq> None)"
      using r ai True by auto
    then show ?thesis by blast
  next
    case False
    with Cons.prems(1) ai have rec:
      "attack_instances self P m ign inputs oo1 (fin @ [tokens (current_instance s)])
         (Some (outputs s)) later = Inr (fin', outs')"
      by (auto simp: Let_def)
    from False have "later \<noteq> []" by simp
    from Cons.IH[OF rec this] obtain k t oo_k oo_k' where
      k: "k < length later"
        "attack_instance self P m ign inputs oo_k (later ! k) = Inr (t, oo_k')"
        "outs' = Some (outputs t)"
        "length fin' = length (fin @ [tokens (current_instance s)]) + Suc k"
        "last fin' = tokens (current_instance t)"
        "Suc k < length later \<longrightarrow> clusters (outputs t) \<noteq> None"
      by blast
    have "Suc k < length (inst # later) \<and>
     attack_instance self P m ign inputs oo_k ((inst # later) ! Suc k) = Inr (t, oo_k') \<and>
     outs' = Some (outputs t) \<and> length fin' = length fin + Suc (Suc k) \<and>
     last fin' = tokens (current_instance t) \<and>
     (Suc (Suc k) < length (inst # later) \<longrightarrow> clusters (outputs t) \<noteq> None)"
      using k by auto
    then show ?thesis by blast
  qed
qed

lemma attack_all_Inr:
  assumes "attack_all self P m ign inputs insts = Inr res"
  shows "insts \<noteq> [] \<and> original res = tokens (hd insts) \<and>
    (\<exists>k s oo oo'. k < length insts \<and> length (final res) = Suc k \<and>
       attack_instance self P m ign inputs oo (insts ! k) = Inr (s, oo') \<and>
       raw_outputs res = outputs s \<and> last (final res) = tokens (current_instance s) \<and>
       (Suc k < length insts \<longrightarrow> clusters (outputs s) \<noteq> None))"
proof -
  from assms obtain first later where i: "insts = first # later"
    by (cases insts) (auto simp: attack_all_def)
  from assms i obtain fin outs where
    ai: "attack_instances self P m ign inputs None [] None insts = Inr (fin, Some outs)" and
    res: "res = \<lparr> final = fin, original = tokens first, raw_outputs = outs \<rparr>"
    by (auto simp: attack_all_def Let_def split: sum.splits option.splits)
  from i have ne: "insts \<noteq> []" by simp
  from attack_instances_last[OF ai ne] res i ne show ?thesis by auto
qed

text \<open>
  C10. Where \<open>attack_from_json\<close> returns a result for the instances \<open>insts\<close> that the
  input yields, the entry \<open>original\<close> is the token sequence of instance 0 as it was
  before the attack, and the entry \<open>outputs\<close> is the outputs at the end of the attack on
  the last instance processed, instance \<open>k\<close>, where \<open>k + 1\<close> is the number of token
  sequences under \<open>final\<close>; the instances after \<open>k\<close> are skipped only because the outputs
  of instance \<open>k\<close> hold clusters. The result has no further entry, so the sequences of
  the other instances before the attack are not part of it.
\<close>

theorem result_reports_first_and_last:
  "attack_from_json self M P inputs ign = (self', Inr res) \<and>
   json_to_labeled_instances P inputs = Inr insts \<longrightarrow>
     insts \<noteq> [] \<and> original res = tokens (insts ! 0) \<and>
     (\<exists>k s oo oo'. k < length insts \<and> length (final res) = Suc k \<and>
        attack_instance self' P Untargeted
          (case ign of None \<Rightarrow> default_ignore_tokens | Some l \<Rightarrow> l) inputs oo (insts ! k) =
          Inr (s, oo') \<and>
        raw_outputs res = outputs s \<and> last (final res) = tokens (current_instance s) \<and>
        (Suc k < length insts \<longrightarrow> clusters (outputs s) \<noteq> None))"
proof
  assume a: "attack_from_json self M P inputs ign = (self', Inr res) \<and>
   json_to_labeled_instances P inputs = Inr insts"
  then have "attack_all self' P Untargeted
      (case ign of None \<Rightarrow> default_ignore_tokens | Some l \<Rightarrow> l) inputs insts = Inr res"
    by (auto simp: attack_from_json_def Let_def split: sum.splits)
  from attack_all_Inr[OF this] show "insts \<noteq> [] \<and> original res = tokens (insts ! 0) \<and>
     (\<exists>k s oo oo'. k < length insts \<and> length (final res) = Suc k \<and>
        attack_instance self' P Untargeted
          (case ign of None \<Rightarrow> default_ignore_tokens | Some l \<Rightarrow> l) inputs oo (insts ! k) =
          Inr (s, oo') \<and>
        raw_outputs res = outputs s \<and> last (final res) = tokens (current_instance s) \<and>
        (Suc k < length insts \<longrightarrow> clusters (outputs s) \<noteq> None))"
    by (cases insts) auto
qed

lemma attack_from_json_two_instances:
  "attack_from_json A0 M0 P2 [''good'', ''.''] None =
     (A0, Inr \<lparr> final = [[''bad'', ''.''], [''.'', ''bad'']], original = [''good'', ''.''],
                raw_outputs = \<lparr> clusters = None, rest = [''.'', ''bad''] \<rparr> \<rparr>)"
  by code_simp

lemma json_to_labeled_instances_P2:
  "json_to_labeled_instances P2 [''good'', ''.''] =
     Inr [\<lparr> tokens = [''good'', ''.''], labels = [(''label'', ''pos'')] \<rparr>,
          \<lparr> tokens = [''.'', ''good''], labels = [(''label'', ''neg'')] \<rparr>]"
  by code_simp

theorem result_reports_first_and_last_witness:
  "attack_from_json A0 M0 P2 [''good'', ''.''] None =
     (A0, Inr \<lparr> final = [[''bad'', ''.''], [''.'', ''bad'']], original = [''good'', ''.''],
                raw_outputs = \<lparr> clusters = None, rest = [''.'', ''bad''] \<rparr> \<rparr>) \<and>
   json_to_labeled_instances P2 [''good'', ''.''] =
     Inr [\<lparr> tokens = [''good'', ''.''], labels = [(''label'', ''pos'')] \<rparr>,
          \<lparr> tokens = [''.'', ''good''], labels = [(''label'', ''neg'')] \<rparr>] \<and>
   (\<exists>k s oo oo'. k < 2 \<and> Suc k = 2 \<and>
      attack_instance A0 P2 Untargeted default_ignore_tokens [''good'', ''.''] oo
        ([\<lparr> tokens = [''good'', ''.''], labels = [(''label'', ''pos'')] \<rparr>,
          \<lparr> tokens = [''.'', ''good''], labels = [(''label'', ''neg'')] \<rparr>] ! k) = Inr (s, oo') \<and>
      \<lparr> clusters = None, rest = [''.'', ''bad''] \<rparr> = outputs s \<and>
      [''.'', ''bad''] = tokens (current_instance s))"
proof -
  let ?res = "\<lparr> final = [[''bad'', ''.''], [''.'', ''bad'']], original = [''good'', ''.''],
                raw_outputs = \<lparr> clusters = None, rest = [''.'', ''bad''] \<rparr> \<rparr>"
  let ?insts = "[\<lparr> tokens = [''good'', ''.''], labels = [(''label'', ''pos'')] \<rparr>,
          \<lparr> tokens = [''.'', ''good''], labels = [(''label'', ''neg'')] \<rparr>] :: string Instance list"
  note th = result_reports_first_and_last[where self = A0 and M = M0 and P = P2
      and inputs = "[''good'', ''.'']" and ign = None and self' = A0 and res = ?res
      and insts = ?insts]
  from th attack_from_json_two_instances json_to_labeled_instances_P2
  have "\<exists>k s oo oo'. k < length ?insts \<and> length (final ?res) = Suc k \<and>
        attack_instance A0 P2 Untargeted
          (case None of None \<Rightarrow> default_ignore_tokens | Some l \<Rightarrow> l) [''good'', ''.''] oo
          (?insts ! k) = Inr (s, oo') \<and>
        raw_outputs ?res = outputs s \<and> last (final ?res) = tokens (current_instance s) \<and>
        (Suc k < length ?insts \<longrightarrow> clusters (outputs s) \<noteq> None)"
    by blast
  then have "\<exists>k s oo oo'. k < 2 \<and> Suc k = 2 \<and>
      attack_instance A0 P2 Untargeted default_ignore_tokens [''good'', ''.''] oo
        (?insts ! k) = Inr (s, oo') \<and>
      \<lparr> clusters = None, rest = [''.'', ''bad''] \<rparr> = outputs s \<and>
      [''.'', ''bad''] = tokens (current_instance s)"
    by simp
  with attack_from_json_two_instances json_to_labeled_instances_P2 show ?thesis by blast
qed

end
